theory Spec2Isabelle
  imports Complex_Main "HOL-Library.Word" "HOL-Library.Multiset"
    "HOL-Library.List_Lexorder" "HOL-Library.Char_ord"
begin

unbundle bit_operations_syntax

section \<open>Values of the JavaScript side\<close>

text \<open>
  A request body is whatever \<^verbatim>\<open>JSON.parse\<close> returns. \<open>JNum\<close> carries the value of the
  (finite) number; \<open>JObj\<close> lists the own properties of the object, each key once.
\<close>

datatype json =
    JNull
  | JBool bool
  | JNum rat
  | JStr string
  | JArr "json list"
  | JObj "(string \<times> json) list"

text \<open>JavaScript truthiness, as used by \<^verbatim>\<open>!x\<close> and \<^verbatim>\<open>x ? a : b\<close>.\<close>

fun truthy :: "json \<Rightarrow> bool" where
  "truthy JNull = False"
| "truthy (JBool b) = b"
| "truthy (JNum n) = (n \<noteq> 0)"
| "truthy (JStr s) = (s \<noteq> [])"
| "truthy (JArr _) = True"
| "truthy (JObj _) = True"

text \<open>
  \<^verbatim>\<open>input.key\<close> for one of the keys the handlers read (title, description, location,
  attendees, start, end, status): \<open>None\<close> is \<^verbatim>\<open>undefined\<close>. Only an object has such a
  property; on \<^verbatim>\<open>null\<close> the access throws, which the handlers below write out.
\<close>

fun get_prop :: "json \<Rightarrow> string \<Rightarrow> json option" where
  "get_prop (JObj kvs) k = map_of kvs k"
| "get_prop _ k = None"

text \<open>\<^verbatim>\<open>!x\<close> of a property that may be undefined.\<close>

definition falsy :: "json option \<Rightarrow> bool" where
  "falsy v = (case v of None \<Rightarrow> True | Some j \<Rightarrow> \<not> truthy j)"

text \<open>\<^verbatim>\<open>x ?? d\<close>: the default replaces \<^verbatim>\<open>undefined\<close> and \<^verbatim>\<open>null\<close> only.\<close>

definition nullish :: "json option \<Rightarrow> json \<Rightarrow> json" where
  "nullish v d = (case v of None \<Rightarrow> d | Some JNull \<Rightarrow> d | Some j \<Rightarrow> j)"

text \<open>\<^verbatim>\<open>Array.isArray(x) ? x : []\<close>.\<close>

definition array_or_empty :: "json \<Rightarrow> json list" where
  "array_or_empty v = (case v of JArr xs \<Rightarrow> xs | _ \<Rightarrow> [])"

text \<open>
  The library functions of the runtime that the handlers call and whose results are
  taken as given: \<^verbatim>\<open>JSON.parse\<close> (\<open>None\<close> when it throws), \<^verbatim>\<open>Date.parse\<close> of a
  string (milliseconds since the epoch, \<open>None\<close> for NaN) and the string conversion of
  an array or object.
\<close>

record platform =
  JSON_parse :: "string \<Rightarrow> json option"
  Date_parse :: "string \<Rightarrow> int option"
  ToString :: "json \<Rightarrow> string"

text \<open>
  Errors carry what the catch block of the server reads: \<open>INVALID_ARGUMENT\<close> and
  \<open>INVALID_JSON\<close> are the two codes the server sets itself, with their messages;
  \<open>TypeError\<close> is the runtime's error for a property read on \<^verbatim>\<open>null\<close>;
  \<open>DatabaseError\<close> is an error raised by the database, named by its SQLSTATE.
\<close>

datatype error =
    INVALID_ARGUMENT string
  | INVALID_JSON
  | TypeError
  | DatabaseError string

section \<open>Timestamps\<close>

text \<open>
  A \<^verbatim>\<open>Date\<close> is its time value, an integer number of milliseconds since the epoch. The
  ISO text \<^verbatim>\<open>toISOString\<close> prints and the \<^verbatim>\<open>timestamptz\<close> the database stores hold
  the same instant, so both are modelled by that integer.

  \<^verbatim>\<open>new Date(value)\<close>: a string is parsed; \<^verbatim>\<open>null\<close>, a boolean and a number are
  converted to a number and clipped to the range of time values; an array or object is
  converted to a string first. \<open>None\<close> is the invalid date.
\<close>

definition TimeClip :: "rat \<Rightarrow> int option" where
  "TimeClip t = (if \<bar>t\<bar> > 8640000000000000 then None
     else Some (if 0 \<le> t then \<lfloor>t\<rfloor> else \<lceil>t\<rceil>))"

fun new_Date :: "platform \<Rightarrow> json \<Rightarrow> int option" where
  "new_Date P JNull = TimeClip 0"
| "new_Date P (JBool b) = TimeClip (if b then 1 else 0)"
| "new_Date P (JNum n) = TimeClip n"
| "new_Date P (JStr s) = Date_parse P s"
| "new_Date P v = Date_parse P (ToString P v)"

definition toDate :: "platform \<Rightarrow> json \<Rightarrow> string \<Rightarrow> error + int" where
  "toDate P val fieldName =
     (case new_Date P val of
        None \<Rightarrow> Inl (INVALID_ARGUMENT (''Invalid '' @ fieldName @ ''; expected ISO 8601 string.''))
      | Some d \<Rightarrow> Inr d)"

definition validateEventTimes :: "int \<Rightarrow> int \<Rightarrow> error + unit" where
  "validateEventTimes start_t end_t =
     (if end_t \<le> start_t then Inl (INVALID_ARGUMENT '''end' must be after 'start'.'')
      else Inr ())"

section \<open>The events table\<close>

subsection \<open>The uuid column type\<close>

text \<open>
  Column \<open>id\<close> is declared \<^verbatim>\<open>id UUID PRIMARY KEY\<close>. The driver sends every query
  parameter as text, and the database converts the text compared with or stored in that
  column by the input function of type uuid: sixteen bytes of two hexadecimal digits
  each, in either case, optionally within braces, with an optional hyphen after any
  group of four digits; any other text is rejected with SQLSTATE 22P02. The value is
  printed back in the canonical lower-case 8-4-4-4-12 form, which is what a row holds.
\<close>

definition hexval :: "char \<Rightarrow> nat option" where
  "hexval c = (let n = (of_char c :: nat) in
     if 48 \<le> n \<and> n \<le> 57 then Some (n - 48)
     else if 97 \<le> n \<and> n \<le> 102 then Some (n - 87)
     else if 65 \<le> n \<and> n \<le> 70 then Some (n - 55)
     else None)"

definition hexdigit :: "nat \<Rightarrow> char" where
  "hexdigit n = ''0123456789abcdef'' ! (n mod 16)"

definition byte_hex :: "nat \<Rightarrow> string" where
  "byte_hex b = [hexdigit (b div 16), hexdigit (b mod 16)]"

text \<open>\<open>uuid_bytes n s\<close> reads the last \<open>n\<close> of the sixteen bytes from \<open>s\<close>.\<close>

definition push_byte :: "nat \<Rightarrow> (nat list \<times> string) option \<Rightarrow> (nat list \<times> string) option" where
  "push_byte b res = (case res of Some (bs, rest) \<Rightarrow> Some (b # bs, rest) | None \<Rightarrow> None)"

fun uuid_bytes :: "nat \<Rightarrow> string \<Rightarrow> (nat list \<times> string) option" where
  "uuid_bytes 0 s = Some ([], s)"
| "uuid_bytes (Suc n) (a # b # s) =
     (case (hexval a, hexval b) of
        (Some x, Some y) \<Rightarrow>
          push_byte (16 * x + y)
            (uuid_bytes n (if even n \<and> 0 < n \<and> take 1 s = ''-'' then tl s else s))
      | _ \<Rightarrow> None)"
| "uuid_bytes (Suc n) _ = None"

definition uuid_out :: "nat list \<Rightarrow> string" where
  "uuid_out bs =
     concat (map byte_hex (take 4 bs)) @ ''-'' @
     concat (map byte_hex (take 2 (drop 4 bs))) @ ''-'' @
     concat (map byte_hex (take 2 (drop 6 bs))) @ ''-'' @
     concat (map byte_hex (take 2 (drop 8 bs))) @ ''-'' @
     concat (map byte_hex (take 6 (drop 10 bs)))"

definition uuid_in :: "string \<Rightarrow> string option" where
  "uuid_in s =
     (let braces = (take 1 s = ''{''); src = (if braces then tl s else s) in
      case uuid_bytes 16 src of
        None \<Rightarrow> None
      | Some (bs, rest) \<Rightarrow>
          if rest = (if braces then ''}'' else []) then Some (uuid_out bs) else None)"

text \<open>
  \<^verbatim>\<open>randomUUID()\<close> of \<^verbatim>\<open>node:crypto\<close>: sixteen bytes of entropy, with the version and
  variant bits of a version 4 UUID set, printed in the canonical form. The entropy is an
  input of the model: \<open>rnd i\<close> is byte \<open>i\<close> of the random buffer.
\<close>

definition randomUUID :: "(nat \<Rightarrow> 8 word) \<Rightarrow> string" where
  "randomUUID rnd =
     uuid_out (map (\<lambda>i. unat (if i = 6 then (rnd i AND 0x0f) OR 0x40
                              else if i = 8 then (rnd i AND 0x3f) OR 0x80
                              else rnd i)) [0..<16])"

subsection \<open>Rows\<close>

text \<open>
  One row of table \<open>events\<close>. Columns \<open>id\<close> and \<open>end\<close> are written \<open>id'\<close> and \<open>end'\<close>.
  A \<^verbatim>\<open>TEXT\<close> column keeps the value that the driver was handed (its rendering as text
  is not modelled), with \<open>JNull\<close> for SQL \<^verbatim>\<open>NULL\<close>; \<open>attendees\<close> keeps the elements
  of the array. The same record is the event object that the POST handler builds.
\<close>

record row =
  id' :: string
  session_id :: string
  title :: json
  description :: json
  location :: json
  attendees :: "json list"
  start :: int
  end' :: int
  status :: json
  created_at :: int
  updated_at :: int

text \<open>The table is the list of its rows, in the order of insertion.\<close>

type_synonym events = "row list"

text \<open>\<^verbatim>\<open>WHERE session_id = $1 AND id = $2\<close>, the second parameter already converted.\<close>

definition matches :: "string \<Rightarrow> string \<Rightarrow> row \<Rightarrow> bool" where
  "matches sessionId u r = (session_id r = sessionId \<and> id' r = u)"

text \<open>\<^verbatim>\<open>rows[0] || null\<close>.\<close>

definition first_row :: "row list \<Rightarrow> row option" where
  "first_row rows = (case rows of [] \<Rightarrow> None | r # _ \<Rightarrow> Some r)"

text \<open>
  \<^verbatim>\<open>INSERT INTO events (...) VALUES ($1, ..., $11)\<close>. The id is converted to uuid;
  \<open>title\<close> and \<open>status\<close> are \<^verbatim>\<open>NOT NULL\<close> (23502); the primary key rejects an id that
  a row already has (23505).
\<close>

definition createEvent :: "events \<Rightarrow> row \<Rightarrow> error + events" where
  "createEvent db e =
     (case uuid_in (id' e) of
        None \<Rightarrow> Inl (DatabaseError ''22P02'')
      | Some u \<Rightarrow>
          if title e = JNull \<or> status e = JNull then Inl (DatabaseError ''23502'')
          else if u \<in> set (map id' db) then Inl (DatabaseError ''23505'')
          else Inr (db @ [e\<lparr>id' := u\<rparr>]))"

text \<open>
  \<^verbatim>\<open>listEvents\<close>: the bounds are the ISO texts of instants, or undefined. The order
  among rows of equal \<open>start\<close> is not fixed by \<^verbatim>\<open>ORDER BY start ASC\<close>; the model keeps
  the order of insertion there.
\<close>

definition listEvents :: "events \<Rightarrow> string \<Rightarrow> int option \<Rightarrow> int option \<Rightarrow> row list" where
  "listEvents db sessionId rangeStart rangeEnd =
     (if rangeStart = None \<and> rangeEnd = None
      then sort_key start (filter (\<lambda>r. session_id r = sessionId) db)
      else
        let clauses = [\<lambda>r. session_id r = sessionId]
              @ (case rangeStart of Some a \<Rightarrow> [\<lambda>r. end' r \<ge> a] | None \<Rightarrow> [])
              @ (case rangeEnd of Some b \<Rightarrow> [\<lambda>r. start r \<le> b] | None \<Rightarrow> [])
        in sort_key start (filter (\<lambda>r. list_all (\<lambda>c. c r) clauses) db))"

definition getEvent :: "events \<Rightarrow> string \<Rightarrow> string \<Rightarrow> error + row option" where
  "getEvent db sessionId eventId =
     (case uuid_in eventId of
        None \<Rightarrow> Inl (DatabaseError ''22P02'')
      | Some u \<Rightarrow> Inr (first_row (filter (matches sessionId u) db)))"

definition deleteEvent :: "events \<Rightarrow> string \<Rightarrow> string \<Rightarrow> error + (bool \<times> events)" where
  "deleteEvent db sessionId eventId =
     (case uuid_in eventId of
        None \<Rightarrow> Inl (DatabaseError ''22P02'')
      | Some u \<Rightarrow>
          let rowCount = length (filter (matches sessionId u) db)
          in Inr (rowCount > 0, filter (\<lambda>r. \<not> matches sessionId u r) db))"

text \<open>
  \<^verbatim>\<open>SELECT DISTINCT session_id FROM events ORDER BY session_id ASC\<close>, in the order of
  the character codes.
\<close>

definition listSessions :: "events \<Rightarrow> string list" where
  "listSessions db = sort (remdups (map session_id db))"

subsection \<open>The dynamic UPDATE statement\<close>

text \<open>
  A query parameter: a JavaScript value (\<open>JNull\<close> is sent as \<^verbatim>\<open>NULL\<close>), or the ISO text
  of an instant.
\<close>

datatype sqlval = Val json | Timestamp int

text \<open>\<open>patch\<close> is \<^verbatim>\<open>Object.entries(patch)\<close>: the keys of the object with their values.\<close>

type_synonym patch = "(string \<times> sqlval) list"

fun digits :: "nat \<Rightarrow> string" where
  "digits n = (if n < 10 then [hexdigit n] else digits (n div 10) @ [hexdigit (n mod 10)])"

declare digits.simps [simp del]

fun join :: "string \<Rightarrow> string list \<Rightarrow> string" where
  "join sep [] = []"
| "join sep [x] = x"
| "join sep (x # y # ys) = x @ sep @ join sep (y # ys)"

text \<open>The loop that fills \<^verbatim>\<open>fields\<close>: one \<^verbatim>\<open>key = $idx\<close> for each entry of the patch.\<close>

fun set_fields :: "nat \<Rightarrow> patch \<Rightarrow> string list" where
  "set_fields idx [] = []"
| "set_fields idx ((key, val) # rest) = (key @ '' = $'' @ digits idx) # set_fields (Suc idx) rest"

definition update_sql :: "patch \<Rightarrow> string" where
  "update_sql patch =
     (let fields = set_fields 1 patch @ [''updated_at = NOW()''];
          whereIdx1 = length patch + 1;
          whereIdx2 = whereIdx1 + 1
      in ''UPDATE events SET '' @ join '', '' fields @
         '' WHERE session_id = $'' @ digits whereIdx1 @
         '' AND id = $'' @ digits whereIdx2 @ '' RETURNING *'')"

text \<open>
  What the statement does. The model covers the seven columns that the PATCH route can
  name, with parameters of the kind the route sends for them: any value for a
  \<^verbatim>\<open>TEXT\<close> column, an array for \<open>attendees\<close>, the ISO text of an instant for
  \<open>start\<close> and \<open>end\<close>. A statement outside this range (another column, another kind
  of value) is not modelled further: it fails (42703, 22P02). Assigning \<^verbatim>\<open>NULL\<close> to a
  \<^verbatim>\<open>NOT NULL\<close> column fails (23502) once a row is updated. The entries of a patch
  have distinct keys, being the entries of an object.
\<close>

definition columns :: "string list" where
  "columns = [''title'', ''description'', ''location'', ''attendees'', ''start'', ''end'', ''status'']"

fun bindable :: "string \<times> sqlval \<Rightarrow> bool" where
  "bindable (key, Val JNull) = True"
| "bindable (key, Val (JArr xs)) = (key \<noteq> ''start'' \<and> key \<noteq> ''end'')"
| "bindable (key, Val v) = (key \<noteq> ''attendees'' \<and> key \<noteq> ''start'' \<and> key \<noteq> ''end'')"
| "bindable (key, Timestamp t) = (key = ''start'' \<or> key = ''end'')"

fun null_in_not_null :: "string \<times> sqlval \<Rightarrow> bool" where
  "null_in_not_null (key, Val JNull) = (key \<in> set [''title'', ''attendees'', ''start'', ''end'', ''status''])"
| "null_in_not_null (key, v) = False"

fun assign :: "row \<Rightarrow> string \<times> sqlval \<Rightarrow> row" where
  "assign r (key, Val v) =
     (if key = ''title'' then r\<lparr>title := v\<rparr>
      else if key = ''description'' then r\<lparr>description := v\<rparr>
      else if key = ''location'' then r\<lparr>location := v\<rparr>
      else if key = ''attendees'' then r\<lparr>attendees := array_or_empty v\<rparr>
      else if key = ''status'' then r\<lparr>status := v\<rparr>
      else r)"
| "assign r (key, Timestamp t) =
     (if key = ''start'' then r\<lparr>start := t\<rparr>
      else if key = ''end'' then r\<lparr>end' := t\<rparr>
      else r)"

definition updateEvent ::
  "int \<Rightarrow> events \<Rightarrow> string \<Rightarrow> string \<Rightarrow> patch \<Rightarrow> error + (row option \<times> events)" where
  "updateEvent NOW db sessionId eventId patch =
     (if list_ex (\<lambda>kv. fst kv \<notin> set columns) patch then Inl (DatabaseError ''42703'')
      else case uuid_in eventId of
        None \<Rightarrow> Inl (DatabaseError ''22P02'')
      | Some u \<Rightarrow>
          if list_ex (\<lambda>kv. \<not> bindable kv) patch then Inl (DatabaseError ''22P02'')
          else if list_ex (matches sessionId u) db \<and> list_ex null_in_not_null patch
          then Inl (DatabaseError ''23502'')
          else
            let set_row = (\<lambda>r. (foldl assign r patch)\<lparr>updated_at := NOW\<rparr>);
                rows = map set_row (filter (matches sessionId u) db)
            in Inr (first_row rows,
                    map (\<lambda>r. if matches sessionId u r then set_row r else r) db))"

section \<open>The server\<close>

text \<open>
  What a request reads from outside the program: the server's clock (\<^verbatim>\<open>new Date()\<close>),
  the clock of the database (\<^verbatim>\<open>NOW()\<close>), both to the millisecond, and the entropy of
  \<^verbatim>\<open>randomUUID()\<close>.
\<close>

record env =
  server_now :: int
  db_now :: int
  entropy :: "nat \<Rightarrow> 8 word"

text \<open>The API representation of an event; the timestamps stand for their ISO texts.\<close>

record event_view =
  id_v :: string
  title_v :: json
  description_v :: json
  location_v :: json
  attendees_v :: "json list"
  start_v :: int
  end_v :: int
  status_v :: json
  createdAt :: int
  updatedAt :: int

definition serializeEvent :: "row \<Rightarrow> event_view" where
  "serializeEvent event =
     \<lparr> id_v = id' event,
       title_v = title event,
       description_v = nullish (Some (description event)) JNull,
       location_v = nullish (Some (location event)) JNull,
       attendees_v = attendees event,
       start_v = start event,
       end_v = end' event,
       status_v = nullish (Some (status event)) (JStr ''confirmed''),
       createdAt = created_at event,
       updatedAt = updated_at event \<rparr>"

datatype reply =
    Health
  | Event event_view
  | Events "event_view list"
  | Sessions "string list"
  | Success bool
  | Failure string

type_synonym response = "nat \<times> reply"

text \<open>
  A handler ends with a response or with a thrown error, and leaves a table behind.
\<close>

type_synonym outcome = "(error + response) \<times> events"

definition attempt :: "error + 'a \<Rightarrow> events \<Rightarrow> ('a \<Rightarrow> outcome) \<Rightarrow> outcome" where
  "attempt x db k = (case x of Inl err \<Rightarrow> (Inl err, db) | Inr v \<Rightarrow> k v)"

definition readJson :: "platform \<Rightarrow> string \<Rightarrow> error + json" where
  "readJson P body =
     (if body = [] then Inr (JObj [])
      else case JSON_parse P body of
        Some v \<Rightarrow> Inr v
      | None \<Rightarrow> Inl INVALID_JSON)"

text \<open>
  A property sent on as it is: \<^verbatim>\<open>undefined\<close> reaches the database as \<^verbatim>\<open>NULL\<close>.
\<close>

definition value_of :: "json option \<Rightarrow> json" where
  "value_of v = (case v of None \<Rightarrow> JNull | Some j \<Rightarrow> j)"

text \<open>\<^verbatim>\<open>toDate(input.key, name)\<close>: \<^verbatim>\<open>new Date(undefined)\<close> is the invalid date.\<close>

definition toDate_prop :: "platform \<Rightarrow> json option \<Rightarrow> string \<Rightarrow> error + int" where
  "toDate_prop P v fieldName =
     (case v of
        None \<Rightarrow> Inl (INVALID_ARGUMENT (''Invalid '' @ fieldName @ ''; expected ISO 8601 string.''))
      | Some j \<Rightarrow> toDate P j fieldName)"

subsection \<open>POST /sessions/:sessionId/events\<close>

text \<open>The event object that the handler builds from a body that passed the checks.\<close>

definition new_event :: "env \<Rightarrow> string \<Rightarrow> json \<Rightarrow> int \<Rightarrow> int \<Rightarrow> row" where
  "new_event E sessionId input start_d end_d =
     (let id = randomUUID (entropy E);
          now = server_now E
      in \<lparr> id' = id,
           session_id = sessionId,
           title = value_of (get_prop input ''title''),
           description = nullish (get_prop input ''description'') JNull,
           location = nullish (get_prop input ''location'') JNull,
           attendees = array_or_empty (value_of (get_prop input ''attendees'')),
           start = start_d,
           end' = end_d,
           status = nullish (get_prop input ''status'') (JStr ''confirmed''),
           created_at = now,
           updated_at = now \<rparr>)"

text \<open>\<^verbatim>\<open>!input || !input.title || !input.start || !input.end\<close>.\<close>

definition required_missing :: "json \<Rightarrow> bool" where
  "required_missing input \<longleftrightarrow>
     \<not> truthy input \<or> falsy (get_prop input ''title'')
       \<or> falsy (get_prop input ''start'') \<or> falsy (get_prop input ''end'')"

definition post_events :: "platform \<Rightarrow> env \<Rightarrow> events \<Rightarrow> string \<Rightarrow> string \<Rightarrow> outcome" where
  "post_events P E db sessionId body =
     attempt (readJson P body) db (\<lambda>input.
       if required_missing input
       then (Inr (400, Failure ''Missing required fields: title, start, end''), db)
       else
         attempt (toDate_prop P (get_prop input ''start'') ''start'') db (\<lambda>start_d.
         attempt (toDate_prop P (get_prop input ''end'') ''end'') db (\<lambda>end_d.
         attempt (validateEventTimes start_d end_d) db (\<lambda>_.
           let event = new_event E sessionId input start_d end_d
           in attempt (createEvent db event) db (\<lambda>db'.
                (Inr (201, Event (serializeEvent event)), db'))))))"

subsection \<open>GET /sessions/:sessionId/events\<close>

definition range_bound :: "platform \<Rightarrow> string option \<Rightarrow> string \<Rightarrow> error + int option" where
  "range_bound P param fieldName =
     (case param of
        None \<Rightarrow> Inr None
      | Some s \<Rightarrow>
          if s = [] then Inr None
          else (case toDate P (JStr s) fieldName of Inl err \<Rightarrow> Inl err | Inr d \<Rightarrow> Inr (Some d)))"

definition get_events ::
  "platform \<Rightarrow> events \<Rightarrow> string \<Rightarrow> string option \<Rightarrow> string option \<Rightarrow> outcome" where
  "get_events P db sessionId rangeStart rangeEnd =
     attempt (range_bound P rangeStart ''range_start'') db (\<lambda>rs.
     attempt (range_bound P rangeEnd ''range_end'') db (\<lambda>re.
       (Inr (200, Events (map serializeEvent (listEvents db sessionId rs re))), db)))"

subsection \<open>GET, PATCH and DELETE /sessions/:sessionId/events/:eventId\<close>

definition get_event :: "events \<Rightarrow> string \<Rightarrow> string \<Rightarrow> outcome" where
  "get_event db sessionId eventId =
     attempt (getEvent db sessionId eventId) db (\<lambda>event.
       case event of
         None \<Rightarrow> (Inr (404, Failure ''Event not found''), db)
       | Some e \<Rightarrow> (Inr (200, Event (serializeEvent e)), db))"

text \<open>
  The merge of the body into \<open>next\<close>, a copy of the existing row: one step for each
  \<^verbatim>\<open>if (input.key !== undefined) next.key = ...\<close> of the source, in its order.
\<close>

definition merge_title :: "json \<Rightarrow> row \<Rightarrow> row" where
  "merge_title input next =
     (case get_prop input ''title'' of None \<Rightarrow> next | Some v \<Rightarrow> next\<lparr>title := v\<rparr>)"

definition merge_description :: "json \<Rightarrow> row \<Rightarrow> row" where
  "merge_description input next =
     (case get_prop input ''description'' of None \<Rightarrow> next | Some v \<Rightarrow> next\<lparr>description := v\<rparr>)"

definition merge_location :: "json \<Rightarrow> row \<Rightarrow> row" where
  "merge_location input next =
     (case get_prop input ''location'' of None \<Rightarrow> next | Some v \<Rightarrow> next\<lparr>location := v\<rparr>)"

definition merge_attendees :: "json \<Rightarrow> row \<Rightarrow> row" where
  "merge_attendees input next =
     (case get_prop input ''attendees'' of
        None \<Rightarrow> next
      | Some v \<Rightarrow> next\<lparr>attendees := array_or_empty v\<rparr>)"

definition merge_start :: "platform \<Rightarrow> json \<Rightarrow> row \<Rightarrow> error + row" where
  "merge_start P input next =
     (case get_prop input ''start'' of
        None \<Rightarrow> Inr next
      | Some v \<Rightarrow> (case toDate P v ''start'' of
                     Inl err \<Rightarrow> Inl err
                   | Inr d \<Rightarrow> Inr (next\<lparr>start := d\<rparr>)))"

definition merge_end :: "platform \<Rightarrow> json \<Rightarrow> row \<Rightarrow> error + row" where
  "merge_end P input next =
     (case get_prop input ''end'' of
        None \<Rightarrow> Inr next
      | Some v \<Rightarrow> (case toDate P v ''end'' of
                     Inl err \<Rightarrow> Inl err
                   | Inr d \<Rightarrow> Inr (next\<lparr>end' := d\<rparr>)))"

definition merge_status :: "json \<Rightarrow> row \<Rightarrow> row" where
  "merge_status input next =
     (case get_prop input ''status'' of None \<Rightarrow> next | Some v \<Rightarrow> next\<lparr>status := v\<rparr>)"

text \<open>The first property read throws when the body is \<^verbatim>\<open>null\<close>.\<close>

definition merge_next :: "platform \<Rightarrow> row \<Rightarrow> json \<Rightarrow> error + row" where
  "merge_next P existing input =
     (if input = JNull then Inl TypeError
      else
        case merge_start P input
               (merge_attendees input (merge_location input
                 (merge_description input (merge_title input existing)))) of
          Inl err \<Rightarrow> Inl err
        | Inr n \<Rightarrow>
            (case merge_end P input n of
               Inl err \<Rightarrow> Inl err
             | Inr n' \<Rightarrow> Inr (merge_status input n')))"

text \<open>The object \<open>patch\<close> of the handler, as its entries in the order they are set.\<close>

definition build_patch :: "json \<Rightarrow> row \<Rightarrow> patch" where
  "build_patch input next =
     (if get_prop input ''title'' \<noteq> None then [(''title'', Val (title next))] else []) @
     (if get_prop input ''description'' \<noteq> None then [(''description'', Val (description next))] else []) @
     (if get_prop input ''location'' \<noteq> None then [(''location'', Val (location next))] else []) @
     (if get_prop input ''attendees'' \<noteq> None then [(''attendees'', Val (JArr (attendees next)))] else []) @
     (if get_prop input ''start'' \<noteq> None then [(''start'', Timestamp (start next))] else []) @
     (if get_prop input ''end'' \<noteq> None then [(''end'', Timestamp (end' next))] else []) @
     (if get_prop input ''status'' \<noteq> None then [(''status'', Val (status next))] else [])"

definition patch_event ::
  "platform \<Rightarrow> env \<Rightarrow> events \<Rightarrow> string \<Rightarrow> string \<Rightarrow> string \<Rightarrow> outcome" where
  "patch_event P E db sessionId eventId body =
     attempt (readJson P body) db (\<lambda>input.
     attempt (getEvent db sessionId eventId) db (\<lambda>found.
       case found of
         None \<Rightarrow> (Inr (404, Failure ''Event not found''), db)
       | Some existing \<Rightarrow>
           attempt (merge_next P existing input) db (\<lambda>next.
           attempt (validateEventTimes (start next) (end' next)) db (\<lambda>_.
             let patch = build_patch input next in
             attempt (updateEvent (db_now E) db sessionId eventId patch) db (\<lambda>(updated, db').
               case updated of
                 None \<Rightarrow> (Inl TypeError, db')
               | Some row \<Rightarrow> (Inr (200, Event (serializeEvent row)), db'))))))"

definition delete_event :: "events \<Rightarrow> string \<Rightarrow> string \<Rightarrow> outcome" where
  "delete_event db sessionId eventId =
     attempt (deleteEvent db sessionId eventId) db (\<lambda>(success, db').
       (Inr (200, Success success), db'))"

subsection \<open>Routing and the catch block\<close>

text \<open>
  A request after the URL has been taken apart: the HTTP method, the path, its
  non-empty segments (\<^verbatim>\<open>url.pathname.split("/").filter(Boolean)\<close>), the two search
  parameters (\<open>None\<close> when absent) and the body. A request always has a URL and a
  method.
\<close>

record request =
  http_method :: string
  pathname :: string
  parts :: "string list"
  range_start :: "string option"
  range_end :: "string option"
  body :: string

definition route :: "platform \<Rightarrow> env \<Rightarrow> events \<Rightarrow> request \<Rightarrow> outcome" where
  "route P E db req =
     (if http_method req = ''GET'' \<and> parts req = [''sessions'']
      then (Inr (200, Sessions (listSessions db)), db)
      else if length (parts req) \<ge> 3 \<and> parts req ! 0 = ''sessions'' \<and> parts req ! 2 = ''events''
      then
        let sessionId = parts req ! 1 in
        if http_method req = ''POST'' \<and> length (parts req) = 3
        then post_events P E db sessionId (body req)
        else if http_method req = ''GET'' \<and> length (parts req) = 3
        then get_events P db sessionId (range_start req) (range_end req)
        else if length (parts req) = 4
        then
          let eventId = parts req ! 3 in
          if http_method req = ''GET'' then get_event db sessionId eventId
          else if http_method req = ''PATCH'' then patch_event P E db sessionId eventId (body req)
          else if http_method req = ''DELETE'' then delete_event db sessionId eventId
          else (Inr (404, Failure ''Not Found''), db)
        else (Inr (404, Failure ''Not Found''), db)
      else (Inr (404, Failure ''Not Found''), db))"

text \<open>
  The health check, answered before the routes are tried, and the catch block: the two
  codes of the server map to 400, any other error to 500. The message of a runtime or
  database error is represented by the error's name.
\<close>

fun status_of :: "error \<Rightarrow> nat" where
  "status_of (INVALID_ARGUMENT m) = 400"
| "status_of INVALID_JSON = 400"
| "status_of _ = 500"

fun message_of :: "error \<Rightarrow> string" where
  "message_of (INVALID_ARGUMENT m) = m"
| "message_of INVALID_JSON = ''Invalid JSON body''"
| "message_of TypeError = ''TypeError''"
| "message_of (DatabaseError c) = ''DatabaseError '' @ c"

definition handle :: "platform \<Rightarrow> env \<Rightarrow> events \<Rightarrow> request \<Rightarrow> response \<times> events" where
  "handle P E db req =
     (if http_method req = ''GET'' \<and> pathname req = ''/health''
      then ((200, Health), db)
      else case route P E db req of
        (Inl err, db') \<Rightarrow> ((status_of err, Failure (message_of err)), db')
      | (Inr res, db') \<Rightarrow> (res, db'))"

section \<open>Notions used to state the claims\<close>

text \<open>
  The overlap filter in the words of the specification: the row is of the session, its
  end is not before the lower bound and its start is not after the upper bound, each
  bound counting only when it is given.
\<close>

definition overlaps :: "string \<Rightarrow> int option \<Rightarrow> int option \<Rightarrow> row \<Rightarrow> bool" where
  "overlaps s range_lo range_hi r =
     (session_id r = s
      \<and> (case range_lo of None \<Rightarrow> True | Some a \<Rightarrow> end' r \<ge> a)
      \<and> (case range_hi of None \<Rightarrow> True | Some b \<Rightarrow> start r \<le> b))"

text \<open>The requests of the routes on events, as the router receives them.\<close>

definition post_request :: "string \<Rightarrow> string \<Rightarrow> request" where
  "post_request sid bd =
     \<lparr> http_method = ''POST'', pathname = ''/sessions/'' @ sid @ ''/events'',
       parts = [''sessions'', sid, ''events''],
       range_start = None, range_end = None, body = bd \<rparr>"

definition patch_request :: "string \<Rightarrow> string \<Rightarrow> string \<Rightarrow> request" where
  "patch_request sid eid bd =
     \<lparr> http_method = ''PATCH'', pathname = ''/sessions/'' @ sid @ ''/events/'' @ eid,
       parts = [''sessions'', sid, ''events'', eid],
       range_start = None, range_end = None, body = bd \<rparr>"

definition delete_request :: "string \<Rightarrow> string \<Rightarrow> request" where
  "delete_request sid eid =
     \<lparr> http_method = ''DELETE'', pathname = ''/sessions/'' @ sid @ ''/events/'' @ eid,
       parts = [''sessions'', sid, ''events'', eid],
       range_start = None, range_end = None, body = [] \<rparr>"

text \<open>
  The invariant of the table: the primary key (no two rows share an id) and
  \<open>end > start\<close> in every row.
\<close>

definition well_formed :: "events \<Rightarrow> bool" where
  "well_formed db = (distinct (map id' db) \<and> list_all (\<lambda>r. start r < end' r) db)"

text \<open>The table after a sequence of requests, each with its own readings of the outside.\<close>

fun run :: "platform \<Rightarrow> events \<Rightarrow> (env \<times> request) list \<Rightarrow> events" where
  "run P db [] = db"
| "run P db ((E, req) # rest) = run P (snd (handle P E db req)) rest"

section \<open>Sample data\<close>

text \<open>
  Three stored events: \<open>eventA\<close> (09:00 to 10:00 on 2025-01-10) and \<open>eventB\<close> (11:00 to
  12:00) in session \<open>S\<close>, and \<open>eventC\<close> in session \<open>T\<close>.
\<close>

definition eventA :: row where
  "eventA = \<lparr> id' = ''00000000-0000-4000-8000-00000000000a'', session_id = ''S'',
      title = JStr ''A'', description = JNull, location = JNull, attendees = [],
      start = 1736499600000, end' = 1736503200000, status = JStr ''confirmed'',
      created_at = 1736400000000, updated_at = 1736400000000 \<rparr>"

definition eventB :: row where
  "eventB = \<lparr> id' = ''00000000-0000-4000-8000-00000000000b'', session_id = ''S'',
      title = JStr ''B'', description = JNull, location = JNull, attendees = [],
      start = 1736506800000, end' = 1736510400000, status = JStr ''confirmed'',
      created_at = 1736400000000, updated_at = 1736400000000 \<rparr>"

definition eventC :: row where
  "eventC = \<lparr> id' = ''00000000-0000-4000-8000-00000000000c'', session_id = ''T'',
      title = JStr ''C'', description = JNull, location = JNull, attendees = [],
      start = 1736499600000, end' = 1736503200000, status = JStr ''confirmed'',
      created_at = 1736400000000, updated_at = 1736400000000 \<rparr>"

text \<open>
  Request bodies, and a platform whose \<^verbatim>\<open>JSON.parse\<close> and \<^verbatim>\<open>Date.parse\<close> give, on
  these bodies and on the three ISO texts in them, what the runtime gives; every other
  text is refused.
\<close>

definition quoted :: "string \<Rightarrow> string" where
  "quoted s = CHR 0x22 # s @ [CHR 0x22]"

definition create_body :: string where
  "create_body = ''{'' @ quoted ''title'' @ '':'' @ quoted ''Call'' @ '','' @
     quoted ''start'' @ '':'' @ quoted ''2025-01-10T09:00:00Z'' @ '','' @
     quoted ''end'' @ '':'' @ quoted ''2025-01-10T09:30:00Z'' @ ''}''"

definition reversed_body :: string where
  "reversed_body = ''{'' @ quoted ''title'' @ '':'' @ quoted ''Call'' @ '','' @
     quoted ''start'' @ '':'' @ quoted ''2025-01-10T09:30:00Z'' @ '','' @
     quoted ''end'' @ '':'' @ quoted ''2025-01-10T09:00:00Z'' @ ''}''"

definition no_end_body :: string where
  "no_end_body = ''{'' @ quoted ''title'' @ '':'' @ quoted ''Call'' @ '','' @
     quoted ''start'' @ '':'' @ quoted ''2025-01-10T09:00:00Z'' @ ''}''"

definition retitle_body :: string where
  "retitle_body = ''{'' @ quoted ''title'' @ '':'' @ quoted ''Updated'' @ '','' @
     quoted ''description'' @ '':null}''"

definition early_end_body :: string where
  "early_end_body = ''{'' @ quoted ''end'' @ '':'' @ quoted ''2025-01-10T09:00:00Z'' @ ''}''"

definition null_start_body :: string where
  "null_start_body = ''{'' @ quoted ''start'' @ '':null}''"

definition hostile_body :: string where
  "hostile_body = ''{'' @ quoted ''title = title; DROP TABLE events; --'' @ '':1,'' @
     quoted ''status'' @ '':'' @ quoted ''cancelled'' @ ''}''"

definition sample_json :: "string \<Rightarrow> json option" where
  "sample_json = map_of
     [ (create_body, JObj [(''title'', JStr ''Call''), (''start'', JStr ''2025-01-10T09:00:00Z''),
                           (''end'', JStr ''2025-01-10T09:30:00Z'')]),
       (reversed_body, JObj [(''title'', JStr ''Call''), (''start'', JStr ''2025-01-10T09:30:00Z''),
                             (''end'', JStr ''2025-01-10T09:00:00Z'')]),
       (no_end_body, JObj [(''title'', JStr ''Call''), (''start'', JStr ''2025-01-10T09:00:00Z'')]),
       (retitle_body, JObj [(''title'', JStr ''Updated''), (''description'', JNull)]),
       (early_end_body, JObj [(''end'', JStr ''2025-01-10T09:00:00Z'')]),
       (null_start_body, JObj [(''start'', JNull)]),
       (hostile_body, JObj [(''title = title; DROP TABLE events; --'', JNum 1),
                            (''status'', JStr ''cancelled'')]) ]"

definition sample_dates :: "string \<Rightarrow> int option" where
  "sample_dates = map_of
     [ (''2025-01-10T09:00:00Z'', 1736499600000),
       (''2025-01-10T09:30:00Z'', 1736501400000),
       (''2025-01-10T10:00:00Z'', 1736503200000) ]"

definition sample_platform :: platform where
  "sample_platform =
     \<lparr> JSON_parse = sample_json, Date_parse = sample_dates,
       ToString = (\<lambda>v. ''[object Object]'') \<rparr>"

text \<open>Two moments of a run: the clocks move on, the entropy is the same.\<close>

definition sample_env :: env where
  "sample_env = \<lparr> server_now = 1736600000000, db_now = 1736600000002, entropy = (\<lambda>i. 0) \<rparr>"

definition later_env :: env where
  "later_env = \<lparr> server_now = 1736700000000, db_now = 1736700000002, entropy = (\<lambda>i. 0) \<rparr>"

text \<open>A server whose clock is one millisecond ahead of the clock of the database.\<close>

definition skewed_env :: env where
  "skewed_env = \<lparr> server_now = 1736600000000, db_now = 1736599999999, entropy = (\<lambda>i. 0) \<rparr>"

text \<open>
  The row that a create with \<open>create_body\<close> in session \<open>S\<close> stores at server time \<open>t\<close>
  when every byte of entropy is zero.
\<close>

definition call_row :: "int \<Rightarrow> row" where
  "call_row t = \<lparr> id' = ''00000000-0000-4000-8000-000000000000'', session_id = ''S'',
      title = JStr ''Call'', description = JNull, location = JNull, attendees = [],
      start = 1736499600000, end' = 1736501400000, status = JStr ''confirmed'',
      created_at = t, updated_at = t \<rparr>"

section \<open>Facts about the table operations\<close>


lemma first_row_map: "first_row (map f rows) = map_option f (first_row rows)"
  by (cases rows) (simp_all add: first_row_def)

lemma first_row_filter_Some:
  "first_row (filter p db) = Some r \<Longrightarrow> r \<in> set db \<and> p r"
  by (induction db) (auto simp: first_row_def split: if_splits)



lemma session_id_assign: "session_id (assign r kv) = session_id r"
  by (cases kv; cases "snd kv") auto

lemma session_id_foldl_assign: "session_id (foldl assign r p) = session_id r"
  by (induction p arbitrary: r) (auto simp: session_id_assign)

lemma id_assign: "id' (assign r kv) = id' r"
  by (cases kv; cases "snd kv") auto

lemma id_foldl_assign: "id' (foldl assign r p) = id' r"
  by (induction p arbitrary: r) (auto simp: id_assign)




section \<open>Facts about uuids\<close>

lemma hexdigits_table:
  "list_all (\<lambda>m. hexval (''0123456789abcdef'' ! m) = Some m
                \<and> ''0123456789abcdef'' ! m \<noteq> CHR ''-''
                \<and> ''0123456789abcdef'' ! m \<noteq> CHR ''{'') [0..<16]"
  by code_simp

lemma hexdigit_facts:
  "hexval (hexdigit n) = Some (n mod 16)" "hexdigit n \<noteq> CHR ''-''" "hexdigit n \<noteq> CHR ''{''"
proof -
  have "n mod 16 \<in> set [0..<16]" by simp
  with hexdigits_table
  have "hexval (''0123456789abcdef'' ! (n mod 16)) = Some (n mod 16)
                \<and> ''0123456789abcdef'' ! (n mod 16) \<noteq> CHR ''-''
                \<and> ''0123456789abcdef'' ! (n mod 16) \<noteq> CHR ''{''"
    unfolding list_all_iff by blast
  then show "hexval (hexdigit n) = Some (n mod 16)" "hexdigit n \<noteq> CHR ''-''" "hexdigit n \<noteq> CHR ''{''"
    by (simp_all add: hexdigit_def)
qed

lemma byte_split: "b < 256 \<Longrightarrow> 16 * (b div 16 mod 16) + b mod 16 mod 16 = (b::nat)"
  by simp

lemma push_byte_Some: "push_byte b (Some (bs, rest)) = Some (b # bs, rest)"
  by (simp add: push_byte_def)

lemma step_byte:
  "b < 256 \<Longrightarrow> uuid_bytes (Suc n) (byte_hex b @ byte_hex c @ s)
           = push_byte b (uuid_bytes n (byte_hex c @ s))"
  by (cases "uuid_bytes n (byte_hex c @ s)")
     (auto simp: byte_hex_def hexdigit_facts push_byte_def byte_split)

lemma step_hyphen:
  "b < 256 \<Longrightarrow> even n \<Longrightarrow> 0 < n \<Longrightarrow>
   uuid_bytes (Suc n) (byte_hex b @ CHR ''-'' # s) = push_byte b (uuid_bytes n s)"
  by (cases "uuid_bytes n s")
     (auto simp: byte_hex_def hexdigit_facts push_byte_def byte_split)

lemma step_last:
  "b < 256 \<Longrightarrow> uuid_bytes (Suc 0) (byte_hex b @ []) = Some ([b], [])"
  by (simp add: byte_hex_def hexdigit_facts byte_split push_byte_def)

lemma uuid_out_16:
  "uuid_out [b0, b1, b2, b3, b4, b5, b6, b7, b8, b9, b10, b11, b12, b13, b14, b15] =
     byte_hex b0 @ byte_hex b1 @ byte_hex b2 @ byte_hex b3 @ CHR ''-'' # byte_hex b4 @ byte_hex b5 @ CHR ''-'' # byte_hex b6 @ byte_hex b7 @ CHR ''-'' # byte_hex b8 @ byte_hex b9 @ CHR ''-'' # byte_hex b10 @ byte_hex b11 @ byte_hex b12 @ byte_hex b13 @ byte_hex b14 @ byte_hex b15 @ []"
  by (simp add: uuid_out_def)

lemma uuid_bytes_16:
  assumes "b0 < 256" "b1 < 256" "b2 < 256" "b3 < 256" "b4 < 256" "b5 < 256" "b6 < 256" "b7 < 256"
    "b8 < 256" "b9 < 256" "b10 < 256" "b11 < 256" "b12 < 256" "b13 < 256" "b14 < 256" "b15 < 256"
  shows "uuid_bytes 16 (uuid_out [b0, b1, b2, b3, b4, b5, b6, b7, b8, b9, b10, b11, b12, b13, b14, b15])
     = Some ([b0, b1, b2, b3, b4, b5, b6, b7, b8, b9, b10, b11, b12, b13, b14, b15], [])"
proof -
  have s15: "uuid_bytes (Suc 0) (byte_hex b15 @ []) = Some ([b15], [])"
    by (rule step_last) (rule assms)

  have s14: "uuid_bytes (Suc (Suc 0)) (byte_hex b14 @ byte_hex b15 @ []) = Some ([b14, b15], [])"
    by (simp only: step_byte [OF assms(15)] s15 push_byte_Some)

  have s13: "uuid_bytes (Suc (Suc (Suc 0))) (byte_hex b13 @ byte_hex b14 @ byte_hex b15 @ []) = Some ([b13, b14, b15], [])"
    by (simp only: step_byte [OF assms(14)] s14 push_byte_Some)

  have s12: "uuid_bytes (Suc (Suc (Suc (Suc 0)))) (byte_hex b12 @ byte_hex b13 @ byte_hex b14 @ byte_hex b15 @ []) = Some ([b12, b13, b14, b15], [])"
    by (simp only: step_byte [OF assms(13)] s13 push_byte_Some)

  have s11: "uuid_bytes (Suc (Suc (Suc (Suc (Suc 0))))) (byte_hex b11 @ byte_hex b12 @ byte_hex b13 @ byte_hex b14 @ byte_hex b15 @ []) = Some ([b11, b12, b13, b14, b15], [])"
    by (simp only: step_byte [OF assms(12)] s12 push_byte_Some)

  have s10: "uuid_bytes (Suc (Suc (Suc (Suc (Suc (Suc 0)))))) (byte_hex b10 @ byte_hex b11 @ byte_hex b12 @ byte_hex b13 @ byte_hex b14 @ byte_hex b15 @ []) = Some ([b10, b11, b12, b13, b14, b15], [])"
    by (simp only: step_byte [OF assms(11)] s11 push_byte_Some)

  have s9: "uuid_bytes (Suc (Suc (Suc (Suc (Suc (Suc (Suc 0))))))) (byte_hex b9 @ CHR ''-'' # byte_hex b10 @ byte_hex b11 @ byte_hex b12 @ byte_hex b13 @ byte_hex b14 @ byte_hex b15 @ []) = Some ([b9, b10, b11, b12, b13, b14, b15], [])"
    by (simp only: step_hyphen [OF assms(10)] even_Suc even_zero zero_less_Suc not_False_eq_True not_not s10 push_byte_Some)

  have s8: "uuid_bytes (Suc (Suc (Suc (Suc (Suc (Suc (Suc (Suc 0)))))))) (byte_hex b8 @ byte_hex b9 @ CHR ''-'' # byte_hex b10 @ byte_hex b11 @ byte_hex b12 @ byte_hex b13 @ byte_hex b14 @ byte_hex b15 @ []) = Some ([b8, b9, b10, b11, b12, b13, b14, b15], [])"
    by (simp only: step_byte [OF assms(9)] s9 push_byte_Some)

  have s7: "uuid_bytes (Suc (Suc (Suc (Suc (Suc (Suc (Suc (Suc (Suc 0))))))))) (byte_hex b7 @ CHR ''-'' # byte_hex b8 @ byte_hex b9 @ CHR ''-'' # byte_hex b10 @ byte_hex b11 @ byte_hex b12 @ byte_hex b13 @ byte_hex b14 @ byte_hex b15 @ []) = Some ([b7, b8, b9, b10, b11, b12, b13, b14, b15], [])"
    by (simp only: step_hyphen [OF assms(8)] even_Suc even_zero zero_less_Suc not_False_eq_True not_not s8 push_byte_Some)

  have s6: "uuid_bytes (Suc (Suc (Suc (Suc (Suc (Suc (Suc (Suc (Suc (Suc 0)))))))))) (byte_hex b6 @ byte_hex b7 @ CHR ''-'' # byte_hex b8 @ byte_hex b9 @ CHR ''-'' # byte_hex b10 @ byte_hex b11 @ byte_hex b12 @ byte_hex b13 @ byte_hex b14 @ byte_hex b15 @ []) = Some ([b6, b7, b8, b9, b10, b11, b12, b13, b14, b15], [])"
    by (simp only: step_byte [OF assms(7)] s7 push_byte_Some)

  have s5: "uuid_bytes (Suc (Suc (Suc (Suc (Suc (Suc (Suc (Suc (Suc (Suc (Suc 0))))))))))) (byte_hex b5 @ CHR ''-'' # byte_hex b6 @ byte_hex b7 @ CHR ''-'' # byte_hex b8 @ byte_hex b9 @ CHR ''-'' # byte_hex b10 @ byte_hex b11 @ byte_hex b12 @ byte_hex b13 @ byte_hex b14 @ byte_hex b15 @ []) = Some ([b5, b6, b7, b8, b9, b10, b11, b12, b13, b14, b15], [])"
    by (simp only: step_hyphen [OF assms(6)] even_Suc even_zero zero_less_Suc not_False_eq_True not_not s6 push_byte_Some)

  have s4: "uuid_bytes (Suc (Suc (Suc (Suc (Suc (Suc (Suc (Suc (Suc (Suc (Suc (Suc 0)))))))))))) (byte_hex b4 @ byte_hex b5 @ CHR ''-'' # byte_hex b6 @ byte_hex b7 @ CHR ''-'' # byte_hex b8 @ byte_hex b9 @ CHR ''-'' # byte_hex b10 @ byte_hex b11 @ byte_hex b12 @ byte_hex b13 @ byte_hex b14 @ byte_hex b15 @ []) = Some ([b4, b5, b6, b7, b8, b9, b10, b11, b12, b13, b14, b15], [])"
    by (simp only: step_byte [OF assms(5)] s5 push_byte_Some)

  have s3: "uuid_bytes (Suc (Suc (Suc (Suc (Suc (Suc (Suc (Suc (Suc (Suc (Suc (Suc (Suc 0))))))))))))) (byte_hex b3 @ CHR ''-'' # byte_hex b4 @ byte_hex b5 @ CHR ''-'' # byte_hex b6 @ byte_hex b7 @ CHR ''-'' # byte_hex b8 @ byte_hex b9 @ CHR ''-'' # byte_hex b10 @ byte_hex b11 @ byte_hex b12 @ byte_hex b13 @ byte_hex b14 @ byte_hex b15 @ []) = Some ([b3, b4, b5, b6, b7, b8, b9, b10, b11, b12, b13, b14, b15], [])"
    by (simp only: step_hyphen [OF assms(4)] even_Suc even_zero zero_less_Suc not_False_eq_True not_not s4 push_byte_Some)

  have s2: "uuid_bytes (Suc (Suc (Suc (Suc (Suc (Suc (Suc (Suc (Suc (Suc (Suc (Suc (Suc (Suc 0)))))))))))))) (byte_hex b2 @ byte_hex b3 @ CHR ''-'' # byte_hex b4 @ byte_hex b5 @ CHR ''-'' # byte_hex b6 @ byte_hex b7 @ CHR ''-'' # byte_hex b8 @ byte_hex b9 @ CHR ''-'' # byte_hex b10 @ byte_hex b11 @ byte_hex b12 @ byte_hex b13 @ byte_hex b14 @ byte_hex b15 @ []) = Some ([b2, b3, b4, b5, b6, b7, b8, b9, b10, b11, b12, b13, b14, b15], [])"
    by (simp only: step_byte [OF assms(3)] s3 push_byte_Some)

  have s1: "uuid_bytes (Suc (Suc (Suc (Suc (Suc (Suc (Suc (Suc (Suc (Suc (Suc (Suc (Suc (Suc (Suc 0))))))))))))))) (byte_hex b1 @ byte_hex b2 @ byte_hex b3 @ CHR ''-'' # byte_hex b4 @ byte_hex b5 @ CHR ''-'' # byte_hex b6 @ byte_hex b7 @ CHR ''-'' # byte_hex b8 @ byte_hex b9 @ CHR ''-'' # byte_hex b10 @ byte_hex b11 @ byte_hex b12 @ byte_hex b13 @ byte_hex b14 @ byte_hex b15 @ []) = Some ([b1, b2, b3, b4, b5, b6, b7, b8, b9, b10, b11, b12, b13, b14, b15], [])"
    by (simp only: step_byte [OF assms(2)] s2 push_byte_Some)

  have s0: "uuid_bytes (Suc (Suc (Suc (Suc (Suc (Suc (Suc (Suc (Suc (Suc (Suc (Suc (Suc (Suc (Suc (Suc 0)))))))))))))))) (byte_hex b0 @ byte_hex b1 @ byte_hex b2 @ byte_hex b3 @ CHR ''-'' # byte_hex b4 @ byte_hex b5 @ CHR ''-'' # byte_hex b6 @ byte_hex b7 @ CHR ''-'' # byte_hex b8 @ byte_hex b9 @ CHR ''-'' # byte_hex b10 @ byte_hex b11 @ byte_hex b12 @ byte_hex b13 @ byte_hex b14 @ byte_hex b15 @ []) = Some ([b0, b1, b2, b3, b4, b5, b6, b7, b8, b9, b10, b11, b12, b13, b14, b15], [])"
    by (simp only: step_byte [OF assms(1)] s1 push_byte_Some)

  have n: "(16::nat) = Suc (Suc (Suc (Suc (Suc (Suc (Suc (Suc (Suc (Suc (Suc (Suc (Suc (Suc (Suc (Suc 0)))))))))))))))" by simp
  show ?thesis unfolding uuid_out_16 n by (rule s0)
qed

lemma uuid_in_out_16:
  assumes "b0 < 256" "b1 < 256" "b2 < 256" "b3 < 256" "b4 < 256" "b5 < 256" "b6 < 256" "b7 < 256"
    "b8 < 256" "b9 < 256" "b10 < 256" "b11 < 256" "b12 < 256" "b13 < 256" "b14 < 256" "b15 < 256"
  shows "uuid_in (uuid_out [b0, b1, b2, b3, b4, b5, b6, b7, b8, b9, b10, b11, b12, b13, b14, b15])
     = Some (uuid_out [b0, b1, b2, b3, b4, b5, b6, b7, b8, b9, b10, b11, b12, b13, b14, b15])"
proof -
  have "take 1 (uuid_out [b0, b1, b2, b3, b4, b5, b6, b7, b8, b9, b10, b11, b12, b13, b14, b15]) \<noteq> ''{''"
    unfolding uuid_out_16 by (simp add: byte_hex_def hexdigit_facts)
  with uuid_bytes_16[OF assms] show ?thesis
    by (simp add: uuid_in_def)
qed

lemma upt_16: "[0..<16] = [0, 1, 2, 3, 4, 5, 6, 7, 8, 9, 10, 11, 12, 13, 14, 15::nat]"
  by code_simp

lemma unat_byte: "unat (w :: 8 word) < 256"
  using unsigned_less [of w, where ?'a = nat] by simp

lemma uuid_in_randomUUID: "uuid_in (randomUUID rnd) = Some (randomUUID rnd)"
  unfolding randomUUID_def upt_16 list.map
  by (rule uuid_in_out_16) (rule unat_byte)+



section \<open>Facts about the handlers\<close>

subsection \<open>The merge of a PATCH body\<close>

lemma bindable_Val: "k \<noteq> ''attendees'' \<Longrightarrow> k \<noteq> ''start'' \<Longrightarrow> k \<noteq> ''end'' \<Longrightarrow> bindable (k, Val v)"
  by (cases v) simp_all

lemma build_patch_bindable:
  "list_all (\<lambda>kv. fst kv \<in> set columns \<and> bindable kv) (build_patch input next)"
  by (simp add: build_patch_def columns_def bindable_Val)

lemma merge_title_eq:
  "merge_title input r = r\<lparr>title := (case get_prop input ''title'' of None \<Rightarrow> title r | Some v \<Rightarrow> v)\<rparr>"
  by (simp add: merge_title_def split: option.splits)

lemma merge_description_eq:
  "merge_description input r =
     r\<lparr>description := (case get_prop input ''description'' of None \<Rightarrow> description r | Some v \<Rightarrow> v)\<rparr>"
  by (simp add: merge_description_def split: option.splits)

lemma merge_location_eq:
  "merge_location input r =
     r\<lparr>location := (case get_prop input ''location'' of None \<Rightarrow> location r | Some v \<Rightarrow> v)\<rparr>"
  by (simp add: merge_location_def split: option.splits)

lemma merge_attendees_eq:
  "merge_attendees input r =
     r\<lparr>attendees := (case get_prop input ''attendees'' of None \<Rightarrow> attendees r
                      | Some v \<Rightarrow> array_or_empty v)\<rparr>"
  by (simp add: merge_attendees_def split: option.splits)

lemma merge_status_eq:
  "merge_status input r =
     r\<lparr>status := (case get_prop input ''status'' of None \<Rightarrow> status r | Some v \<Rightarrow> v)\<rparr>"
  by (simp add: merge_status_def split: option.splits)

lemma merge_start_Inr:
  "merge_start P input r = Inr n \<Longrightarrow>
     \<exists>s. n = r\<lparr>start := s\<rparr> \<and>
     (case get_prop input ''start'' of None \<Rightarrow> s = start r
      | Some v \<Rightarrow> toDate P v ''start'' = Inr s)"
  by (auto simp: merge_start_def split: option.splits sum.splits)

lemma merge_end_Inr:
  "merge_end P input r = Inr n \<Longrightarrow>
     \<exists>e. n = r\<lparr>end' := e\<rparr> \<and>
     (case get_prop input ''end'' of None \<Rightarrow> e = end' r
      | Some v \<Rightarrow> toDate P v ''end'' = Inr e)"
  by (auto simp: merge_end_def split: option.splits sum.splits)

text \<open>The merged row, field by field.\<close>

lemma merge_next_Inr:
  assumes "merge_next P existing input = Inr next"
  shows "\<exists>s e. next = existing
            \<lparr> title := (case get_prop input ''title'' of None \<Rightarrow> title existing | Some v \<Rightarrow> v),
              description := (case get_prop input ''description'' of None \<Rightarrow> description existing | Some v \<Rightarrow> v),
              location := (case get_prop input ''location'' of None \<Rightarrow> location existing | Some v \<Rightarrow> v),
              attendees := (case get_prop input ''attendees'' of None \<Rightarrow> attendees existing
                             | Some v \<Rightarrow> array_or_empty v),
              start := s, end' := e,
              status := (case get_prop input ''status'' of None \<Rightarrow> status existing | Some v \<Rightarrow> v) \<rparr>
          \<and> (case get_prop input ''start'' of None \<Rightarrow> s = start existing
               | Some v \<Rightarrow> toDate P v ''start'' = Inr s)
          \<and> (case get_prop input ''end'' of None \<Rightarrow> e = end' existing
               | Some v \<Rightarrow> toDate P v ''end'' = Inr e)
          \<and> input \<noteq> JNull"
proof -
  let ?n4 = "merge_attendees input (merge_location input
                 (merge_description input (merge_title input existing)))"
  from assms have nn: "input \<noteq> JNull" by (auto simp: merge_next_def split: if_splits)
  from assms nn obtain n5 n6 where
    5: "merge_start P input ?n4 = Inr n5" and 6: "merge_end P input n5 = Inr n6"
    and 7: "next = merge_status input n6"
    by (auto simp: merge_next_def split: sum.splits)
  from merge_start_Inr[OF 5] obtain s where
    s: "n5 = ?n4\<lparr>start := s\<rparr>"
       "(case get_prop input ''start'' of None \<Rightarrow> s = start ?n4 | Some v \<Rightarrow> toDate P v ''start'' = Inr s)"
    by blast
  from merge_end_Inr[OF 6] obtain e where
    e: "n6 = n5\<lparr>end' := e\<rparr>"
       "(case get_prop input ''end'' of None \<Rightarrow> e = end' n5 | Some v \<Rightarrow> toDate P v ''end'' = Inr e)"
    by blast
  have "next = existing
            \<lparr> title := (case get_prop input ''title'' of None \<Rightarrow> title existing | Some v \<Rightarrow> v),
              description := (case get_prop input ''description'' of None \<Rightarrow> description existing | Some v \<Rightarrow> v),
              location := (case get_prop input ''location'' of None \<Rightarrow> location existing | Some v \<Rightarrow> v),
              attendees := (case get_prop input ''attendees'' of None \<Rightarrow> attendees existing
                             | Some v \<Rightarrow> array_or_empty v),
              start := s, end' := e,
              status := (case get_prop input ''status'' of None \<Rightarrow> status existing | Some v \<Rightarrow> v) \<rparr>"
    unfolding 7 e(1) s(1)
    by (simp add: merge_status_eq merge_attendees_eq merge_location_eq merge_description_eq merge_title_eq
          cong: option.case_cong)
  moreover have 4: "start ?n4 = start existing" "end' n5 = end' existing"
    unfolding s(1)
    by (simp_all add: merge_attendees_eq merge_location_eq merge_description_eq merge_title_eq)
  have "(case get_prop input ''start'' of None \<Rightarrow> s = start existing
               | Some v \<Rightarrow> toDate P v ''start'' = Inr s)"
    using s(2) unfolding 4 .
  moreover have "(case get_prop input ''end'' of None \<Rightarrow> e = end' existing
               | Some v \<Rightarrow> toDate P v ''end'' = Inr e)"
    using e(2) unfolding 4 .
  ultimately show ?thesis using nn by blast
qed

lemma foldl_assign_build_patch:
  "foldl assign r (build_patch input next) = r
     \<lparr> title := (if get_prop input ''title'' \<noteq> None then title next else title r),
       description := (if get_prop input ''description'' \<noteq> None then description next else description r),
       location := (if get_prop input ''location'' \<noteq> None then location next else location r),
       attendees := (if get_prop input ''attendees'' \<noteq> None then attendees next else attendees r),
       start := (if get_prop input ''start'' \<noteq> None then start next else start r),
       end' := (if get_prop input ''end'' \<noteq> None then end' next else end' r),
       status := (if get_prop input ''status'' \<noteq> None then status next else status r) \<rparr>"
  by (simp add: build_patch_def array_or_empty_def)

lemma if_present_case:
  "(if g \<noteq> None then (case g of None \<Rightarrow> t | Some v \<Rightarrow> f v) else t) = (case g of None \<Rightarrow> t | Some v \<Rightarrow> f v)"
  by (cases g) simp_all

lemma if_present_time:
  "(case g of None \<Rightarrow> s = t | Some v \<Rightarrow> Q v) \<Longrightarrow> (if g \<noteq> None then s else t) = s"
  by (cases g) simp_all

lemma foldl_assign_merged:
  assumes "merge_next P existing input = Inr next"
  shows "foldl assign existing (build_patch input next) = next"
proof -
  from merge_next_Inr[OF assms] obtain s e where
    n: "next = existing
            \<lparr> title := (case get_prop input ''title'' of None \<Rightarrow> title existing | Some v \<Rightarrow> v),
              description := (case get_prop input ''description'' of None \<Rightarrow> description existing | Some v \<Rightarrow> v),
              location := (case get_prop input ''location'' of None \<Rightarrow> location existing | Some v \<Rightarrow> v),
              attendees := (case get_prop input ''attendees'' of None \<Rightarrow> attendees existing
                             | Some v \<Rightarrow> array_or_empty v),
              start := s, end' := e,
              status := (case get_prop input ''status'' of None \<Rightarrow> status existing | Some v \<Rightarrow> v) \<rparr>"
    and s: "(case get_prop input ''start'' of None \<Rightarrow> s = start existing
               | Some v \<Rightarrow> toDate P v ''start'' = Inr s)"
    and e: "(case get_prop input ''end'' of None \<Rightarrow> e = end' existing
               | Some v \<Rightarrow> toDate P v ''end'' = Inr e)"
    by blast
  have f: "title next = (case get_prop input ''title'' of None \<Rightarrow> title existing | Some v \<Rightarrow> v)"
     "description next = (case get_prop input ''description'' of None \<Rightarrow> description existing | Some v \<Rightarrow> v)"
     "location next = (case get_prop input ''location'' of None \<Rightarrow> location existing | Some v \<Rightarrow> v)"
     "attendees next = (case get_prop input ''attendees'' of None \<Rightarrow> attendees existing
                             | Some v \<Rightarrow> array_or_empty v)"
     "start next = s" "end' next = e"
     "status next = (case get_prop input ''status'' of None \<Rightarrow> status existing | Some v \<Rightarrow> v)"
    unfolding n by simp_all
  show ?thesis
    unfolding foldl_assign_build_patch f if_present_case if_present_time[OF s] if_present_time[OF e]
    by (rule n[symmetric])
qed

lemma patch_event_ok:
  assumes "readJson P bd = Inr input"
    and "getEvent db sid eid = Inr (Some existing)"
    and "merge_next P existing input = Inr next"
    and "start next < end' next"
    and "\<not> list_ex null_in_not_null (build_patch input next)"
    and "uuid_in eid = Some u"
  shows "patch_event P E db sid eid bd =
     (Inr (200, Event (serializeEvent (next\<lparr>updated_at := db_now E\<rparr>))),
      map (\<lambda>r. if matches sid u r
                then (foldl assign r (build_patch input next))\<lparr>updated_at := db_now E\<rparr>
                else r) db)"
proof -
  from assms(2,6) have fr: "first_row (filter (matches sid u) db) = Some existing"
    by (simp add: getEvent_def)
  have b: "\<not> list_ex (\<lambda>kv. fst kv \<notin> set columns) (build_patch input next)"
          "\<not> list_ex (\<lambda>kv. \<not> bindable kv) (build_patch input next)"
    using build_patch_bindable[of input "next"] by (auto simp: list_all_iff list_ex_iff)
  have upd: "updateEvent (db_now E) db sid eid (build_patch input next) =
     Inr (Some (next\<lparr>updated_at := db_now E\<rparr>),
          map (\<lambda>r. if matches sid u r
                then (foldl assign r (build_patch input next))\<lparr>updated_at := db_now E\<rparr>
                else r) db)"
    using b assms(5,6) fr
    by (simp add: updateEvent_def first_row_map foldl_assign_merged[OF assms(3)])
  show ?thesis
    using assms(1,2,3,4) upd
    by (simp add: patch_event_def attempt_def validateEventTimes_def)
qed

lemma request_methods [simp]:
  "http_method (post_request sid bd) = ''POST''"
  "http_method (patch_request sid eid bd) = ''PATCH''"
  "http_method (delete_request sid eid) = ''DELETE''"
  by (simp_all add: post_request_def patch_request_def delete_request_def)

lemma route_post: "route P E db (post_request sid bd) = post_events P E db sid bd"
  by (simp add: route_def post_request_def)

lemma route_patch: "route P E db (patch_request sid eid bd) = patch_event P E db sid eid bd"
  by (simp add: route_def patch_request_def)





lemma matches_unique:
  assumes "distinct (map id' db)" "existing \<in> set db" "matches sid u existing" "r \<in> set db"
  shows "matches sid u r \<longleftrightarrow> r = existing"
proof
  assume "matches sid u r"
  with assms(3) have "id' r = id' existing" by (simp add: matches_def)
  with assms(1,2,4) show "r = existing" by (meson distinct_map inj_on_def)
qed (use assms(3) in simp)

lemma map_matches_unique:
  assumes "distinct (map id' db)" "existing \<in> set db" "matches sid u existing"
  shows "map (\<lambda>r. if matches sid u r then f r else r) db = map (\<lambda>r. if r = existing then f r else r) db"
  using matches_unique[OF assms] by (intro map_cong) auto

lemma patch_event_bad_times:
  assumes "readJson P bd = Inr input"
    and "getEvent db sid eid = Inr (Some existing)"
    and "merge_next P existing input = Inr next"
    and "end' next \<le> start next"
  shows "patch_event P E db sid eid bd = (Inl (INVALID_ARGUMENT '''end' must be after 'start'.''), db)"
  using assms by (simp add: patch_event_def attempt_def validateEventTimes_def)

lemma patch_event_null:
  assumes "readJson P bd = Inr input"
    and "getEvent db sid eid = Inr (Some existing)"
    and "merge_next P existing input = Inr next"
    and "start next < end' next"
    and "list_ex null_in_not_null (build_patch input next)"
  shows "patch_event P E db sid eid bd = (Inl (DatabaseError ''23502''), db)"
proof -
  from assms(2) obtain u where u: "uuid_in eid = Some u"
    and fr: "first_row (filter (matches sid u) db) = Some existing"
    by (auto simp: getEvent_def split: option.splits)
  from first_row_filter_Some[OF fr] have "list_ex (matches sid u) db"
    by (auto simp: list_ex_iff)
  moreover have "\<not> list_ex (\<lambda>kv. fst kv \<notin> set columns) (build_patch input next)"
          "\<not> list_ex (\<lambda>kv. \<not> bindable kv) (build_patch input next)"
    using build_patch_bindable[of input "next"] by (auto simp: list_all_iff list_ex_iff)
  ultimately have "updateEvent (db_now E) db sid eid (build_patch input next) = Inl (DatabaseError ''23502'')"
    using u assms(5) by (simp add: updateEvent_def)
  with assms(1-4) show ?thesis
    by (simp add: patch_event_def attempt_def validateEventTimes_def)
qed

lemma patch_event_ok_distinct:
  assumes "readJson P bd = Inr input"
    and "getEvent db sid eid = Inr (Some existing)"
    and "merge_next P existing input = Inr next"
    and "start next < end' next"
    and "\<not> list_ex null_in_not_null (build_patch input next)"
    and "distinct (map id' db)"
  shows "patch_event P E db sid eid bd =
     (Inr (200, Event (serializeEvent (next\<lparr>updated_at := db_now E\<rparr>))),
      map (\<lambda>r. if r = existing then next\<lparr>updated_at := db_now E\<rparr> else r) db)"
proof -
  from assms(2) obtain u where u: "uuid_in eid = Some u"
    and fr: "first_row (filter (matches sid u) db) = Some existing"
    by (auto simp: getEvent_def split: option.splits)
  from first_row_filter_Some[OF fr] have ex: "existing \<in> set db" "matches sid u existing"
    by simp_all
  have "map (\<lambda>r. if matches sid u r
                then (foldl assign r (build_patch input next))\<lparr>updated_at := db_now E\<rparr>
                else r) db
        = map (\<lambda>r. if r = existing then (foldl assign r (build_patch input next))\<lparr>updated_at := db_now E\<rparr> else r) db"
    by (rule map_matches_unique[OF assms(6) ex])
  also have "\<dots> = map (\<lambda>r. if r = existing then next\<lparr>updated_at := db_now E\<rparr> else r) db"
    by (intro map_cong) (auto simp: foldl_assign_merged[OF assms(3)])
  finally show ?thesis
    using patch_event_ok[OF assms(1-5) u] by simp
qed

subsection \<open>How a request can end\<close>

lemma attempt_Inl: "attempt (Inl err) db k = (Inl err, db)"
  by (simp add: attempt_def)

lemma attempt_Inr: "attempt (Inr v) db k = k v"
  by (simp add: attempt_def)

lemma attempt_cases:
  "attempt x db k = out \<Longrightarrow>
     (\<exists>err. x = Inl err \<and> out = (Inl err, db)) \<or> (\<exists>v. x = Inr v \<and> k v = out)"
  by (cases x) (auto simp: attempt_def)

lemma readJson_Inl: "readJson P bd = Inl err \<longleftrightarrow> err = INVALID_JSON \<and> bd \<noteq> [] \<and> JSON_parse P bd = None"
  by (auto simp: readJson_def split: option.splits)

lemma toDate_Inl:
  "toDate P v f = Inl err \<Longrightarrow> err = INVALID_ARGUMENT (''Invalid '' @ f @ ''; expected ISO 8601 string.'')"
  by (auto simp: toDate_def split: option.splits)

lemma toDate_prop_Inl:
  "toDate_prop P v f = Inl err \<Longrightarrow> err = INVALID_ARGUMENT (''Invalid '' @ f @ ''; expected ISO 8601 string.'')"
  by (auto simp: toDate_prop_def dest: toDate_Inl split: option.splits)

lemma validate_Inl:
  "validateEventTimes s e = Inl err \<longleftrightarrow> e \<le> s \<and> err = INVALID_ARGUMENT '''end' must be after 'start'.''"
  by (auto simp: validateEventTimes_def)

lemma validate_Inr: "validateEventTimes s e = Inr x \<longleftrightarrow> s < e"
  by (auto simp: validateEventTimes_def)

lemma createEvent_Inl: "createEvent db e = Inl err \<Longrightarrow> \<exists>c. err = DatabaseError c"
  by (auto simp: createEvent_def split: option.splits if_splits)

lemma createEvent_Inr:
  "createEvent db e = Inr db' \<longleftrightarrow>
     (\<exists>u. uuid_in (id' e) = Some u \<and> title e \<noteq> JNull \<and> status e \<noteq> JNull
          \<and> u \<notin> set (map id' db) \<and> db' = db @ [e\<lparr>id' := u\<rparr>])"
  by (auto simp: createEvent_def split: option.splits if_splits)

lemma post_events_json:
  "readJson P bd = Inr input \<Longrightarrow>
   post_events P E db sid bd =
     (if required_missing input
      then (Inr (400, Failure ''Missing required fields: title, start, end''), db)
      else
         attempt (toDate_prop P (get_prop input ''start'') ''start'') db (\<lambda>start_d.
         attempt (toDate_prop P (get_prop input ''end'') ''end'') db (\<lambda>end_d.
         attempt (validateEventTimes start_d end_d) db (\<lambda>_.
           attempt (createEvent db (new_event E sid input start_d end_d)) db (\<lambda>db'.
                (Inr (201, Event (serializeEvent (new_event E sid input start_d end_d))), db'))))))"
  by (simp add: post_events_def attempt_def Let_def cong: sum.case_cong)

lemma post_events_cases [consumes 1, case_names bad_json missing bad_date bad_order db_error created]:
  assumes "post_events P E db sid bd = out"
  obtains
    "bd \<noteq> []" "JSON_parse P bd = None" "out = (Inl INVALID_JSON, db)"
  | input where "readJson P bd = Inr input" "required_missing input"
      "out = (Inr (400, Failure ''Missing required fields: title, start, end''), db)"
  | input f where "readJson P bd = Inr input" "\<not> required_missing input"
      "f = ''start'' \<or> f = ''end''"
      "out = (Inl (INVALID_ARGUMENT (''Invalid '' @ f @ ''; expected ISO 8601 string.'')), db)"
  | input s e where "readJson P bd = Inr input" "\<not> required_missing input"
      "toDate_prop P (get_prop input ''start'') ''start'' = Inr s"
      "toDate_prop P (get_prop input ''end'') ''end'' = Inr e" "e \<le> s"
      "out = (Inl (INVALID_ARGUMENT '''end' must be after 'start'.''), db)"
  | input s e c where "readJson P bd = Inr input" "\<not> required_missing input"
      "toDate_prop P (get_prop input ''start'') ''start'' = Inr s"
      "toDate_prop P (get_prop input ''end'') ''end'' = Inr e" "s < e"
      "out = (Inl (DatabaseError c), db)"
  | input s e db' where "readJson P bd = Inr input" "\<not> required_missing input"
      "toDate_prop P (get_prop input ''start'') ''start'' = Inr s"
      "toDate_prop P (get_prop input ''end'') ''end'' = Inr e" "s < e"
      "createEvent db (new_event E sid input s e) = Inr db'"
      "out = (Inr (201, Event (serializeEvent (new_event E sid input s e))), db')"
proof (cases "readJson P bd")
  case (Inl err)
  then have "err = INVALID_JSON" "bd \<noteq> []" "JSON_parse P bd = None"
    by (simp_all add: readJson_Inl)
  moreover from Inl assms have "out = (Inl err, db)"
    by (simp add: post_events_def attempt_def)
  ultimately show ?thesis using that(1) by simp
next
  case (Inr input)
  note rj = this
  note pe = post_events_json[OF rj, of E db sid]
  show ?thesis
  proof (cases "required_missing input")
    case True
    with assms pe have "out = (Inr (400, Failure ''Missing required fields: title, start, end''), db)"
      by simp
    with rj True show ?thesis by (rule that(2))
  next
    case False
    note nm = this
    show ?thesis
    proof (cases "toDate_prop P (get_prop input ''start'') ''start''")
      case (Inl err)
      from toDate_prop_Inl[OF this] this assms pe nm
      have "out = (Inl (INVALID_ARGUMENT (''Invalid '' @ ''start'' @ ''; expected ISO 8601 string.'')), db)"
        by (simp add: attempt_def)
      with rj nm show ?thesis by (intro that(3)[of input "''start''"]) simp_all
    next
      case (Inr s)
      note s = this
      show ?thesis
      proof (cases "toDate_prop P (get_prop input ''end'') ''end''")
        case (Inl err)
        from toDate_prop_Inl[OF this] this assms pe nm s
        have "out = (Inl (INVALID_ARGUMENT (''Invalid '' @ ''end'' @ ''; expected ISO 8601 string.'')), db)"
          by (simp add: attempt_def)
        with rj nm show ?thesis by (intro that(3)[of input "''end''"]) simp_all
      next
        case (Inr e)
        note e = this
        show ?thesis
        proof (cases "s < e")
          case False
          with assms pe nm s e
          have "out = (Inl (INVALID_ARGUMENT '''end' must be after 'start'.''), db)"
            by (simp add: attempt_def validateEventTimes_def)
          with rj nm s e False show ?thesis by (intro that(4)[of input s e]) simp_all
        next
          case True
          show ?thesis
          proof (cases "createEvent db (new_event E sid input s e)")
            case (Inl err)
            from createEvent_Inl[OF this] obtain c where "err = DatabaseError c" ..
            with Inl True assms pe nm s e have "out = (Inl (DatabaseError c), db)"
              by (simp add: attempt_def validateEventTimes_def)
            with rj nm s e True show ?thesis by (intro that(5)[of input s e c]) simp_all
          next
            case (Inr db')
            with True assms pe nm s e
            have "out = (Inr (201, Event (serializeEvent (new_event E sid input s e))), db')"
              by (simp add: attempt_def validateEventTimes_def)
            with rj nm s e True Inr show ?thesis by (intro that(6)[of input s e db']) simp_all
          qed
        qed
      qed
    qed
  qed
qed

lemma getEvent_Inl: "getEvent db sid eid = Inl err \<Longrightarrow> err = DatabaseError ''22P02'' \<and> uuid_in eid = None"
  by (auto simp: getEvent_def split: option.splits)

lemma getEvent_Some:
  "getEvent db sid eid = Inr (Some r) \<Longrightarrow>
     \<exists>u. uuid_in eid = Some u \<and> first_row (filter (matches sid u) db) = Some r
         \<and> r \<in> set db \<and> matches sid u r"
  by (auto simp: getEvent_def split: option.splits dest: first_row_filter_Some)

lemma merge_start_Inl:
  "merge_start P input r = Inl err \<Longrightarrow>
     err = INVALID_ARGUMENT (''Invalid '' @ ''start'' @ ''; expected ISO 8601 string.'')"
  by (auto simp: merge_start_def split: option.splits sum.splits dest: toDate_Inl)

lemma merge_end_Inl:
  "merge_end P input r = Inl err \<Longrightarrow>
     err = INVALID_ARGUMENT (''Invalid '' @ ''end'' @ ''; expected ISO 8601 string.'')"
  by (auto simp: merge_end_def split: option.splits sum.splits dest: toDate_Inl)

lemma merge_next_Inl:
  assumes "merge_next P existing input = Inl err"
  shows "(input = JNull \<and> err = TypeError)
     \<or> (\<exists>f. (f = ''start'' \<or> f = ''end'')
            \<and> err = INVALID_ARGUMENT (''Invalid '' @ f @ ''; expected ISO 8601 string.''))"
proof (cases "input = JNull")
  case True
  with assms show ?thesis by (simp add: merge_next_def)
next
  case False
  let ?n4 = "merge_attendees input (merge_location input
                 (merge_description input (merge_title input existing)))"
  show ?thesis
  proof (cases "merge_start P input ?n4")
    case (Inl e1)
    with assms False have "err = e1" by (simp add: merge_next_def)
    with merge_start_Inl[OF Inl] show ?thesis by blast
  next
    case (Inr n5)
    show ?thesis
    proof (cases "merge_end P input n5")
      case (Inl e2)
      with assms False Inr have "err = e2" by (simp add: merge_next_def)
      with merge_end_Inl[OF Inl] show ?thesis by blast
    next
      case Inr2: (Inr n6)
      with assms False Inr show ?thesis by (simp add: merge_next_def)
    qed
  qed
qed

lemma patch_event_cases
  [consumes 1, case_names bad_json bad_id not_found null_body bad_date bad_order not_null updated]:
  assumes "patch_event P E db sid eid bd = out"
  obtains
    "bd \<noteq> []" "JSON_parse P bd = None" "out = (Inl INVALID_JSON, db)"
  | input where "readJson P bd = Inr input" "uuid_in eid = None"
      "out = (Inl (DatabaseError ''22P02''), db)"
  | input where "readJson P bd = Inr input" "getEvent db sid eid = Inr None"
      "out = (Inr (404, Failure ''Event not found''), db)"
  | existing where "readJson P bd = Inr JNull" "getEvent db sid eid = Inr (Some existing)"
      "out = (Inl TypeError, db)"
  | input existing f where "readJson P bd = Inr input"
      "getEvent db sid eid = Inr (Some existing)" "f = ''start'' \<or> f = ''end''"
      "out = (Inl (INVALID_ARGUMENT (''Invalid '' @ f @ ''; expected ISO 8601 string.'')), db)"
  | input existing "next" where "readJson P bd = Inr input"
      "getEvent db sid eid = Inr (Some existing)"
      "merge_next P existing input = Inr next" "end' next \<le> start next"
      "out = (Inl (INVALID_ARGUMENT '''end' must be after 'start'.''), db)"
  | input existing "next" where "readJson P bd = Inr input"
      "getEvent db sid eid = Inr (Some existing)"
      "merge_next P existing input = Inr next" "start next < end' next"
      "list_ex null_in_not_null (build_patch input next)"
      "out = (Inl (DatabaseError ''23502''), db)"
  | input existing "next" u where "readJson P bd = Inr input"
      "getEvent db sid eid = Inr (Some existing)"
      "merge_next P existing input = Inr next" "start next < end' next"
      "\<not> list_ex null_in_not_null (build_patch input next)" "uuid_in eid = Some u"
      "out = (Inr (200, Event (serializeEvent (next\<lparr>updated_at := db_now E\<rparr>))),
              map (\<lambda>r. if matches sid u r
                        then (foldl assign r (build_patch input next))\<lparr>updated_at := db_now E\<rparr>
                        else r) db)"
proof (cases "readJson P bd")
  case (Inl err)
  then have "err = INVALID_JSON" "bd \<noteq> []" "JSON_parse P bd = None"
    by (simp_all add: readJson_Inl)
  moreover from Inl assms have "out = (Inl err, db)"
    by (simp add: patch_event_def attempt_def)
  ultimately show ?thesis using that(1) by simp
next
  case (Inr input)
  note rj = this
  show ?thesis
  proof (cases "getEvent db sid eid")
    case (Inl err)
    from getEvent_Inl[OF this] have "err = DatabaseError ''22P02''" "uuid_in eid = None" by simp_all
    moreover from Inl rj assms have "out = (Inl err, db)"
      by (simp add: patch_event_def attempt_def)
    ultimately show ?thesis using that(2)[OF rj] by simp
  next
    case ge: (Inr found)
    show ?thesis
    proof (cases found)
      case None
      with ge rj assms have "out = (Inr (404, Failure ''Event not found''), db)"
        by (simp add: patch_event_def attempt_def)
      with ge None rj show ?thesis by (intro that(3)[of input]) simp_all
    next
      case (Some existing)
      with ge have ge': "getEvent db sid eid = Inr (Some existing)" by simp
      show ?thesis
      proof (cases "merge_next P existing input")
        case (Inl err)
        with ge' rj assms have o: "out = (Inl err, db)"
          by (simp add: patch_event_def attempt_def)
        from merge_next_Inl[OF Inl] show ?thesis
        proof
          assume "input = JNull \<and> err = TypeError"
          with o rj ge' show ?thesis by (intro that(4)[of existing]) simp_all
        next
          assume "\<exists>f. (f = ''start'' \<or> f = ''end'')
            \<and> err = INVALID_ARGUMENT (''Invalid '' @ f @ ''; expected ISO 8601 string.'')"
          then obtain f where "f = ''start'' \<or> f = ''end''"
            "err = INVALID_ARGUMENT (''Invalid '' @ f @ ''; expected ISO 8601 string.'')" by blast
          with o rj ge' show ?thesis by (intro that(5)[of input existing f]) simp_all
        qed
      next
        case mn: (Inr "next")
        show ?thesis
        proof (cases "start next < end' next")
          case False
          then have "end' next \<le> start next" by simp
          from patch_event_bad_times[OF rj ge' mn this, of E] assms
          have "out = (Inl (INVALID_ARGUMENT '''end' must be after 'start'.''), db)" by simp
          with rj ge' mn False show ?thesis by (intro that(6)[of input existing "next"]) simp_all
        next
          case True
          show ?thesis
          proof (cases "list_ex null_in_not_null (build_patch input next)")
            case nn: True
            from patch_event_null[OF rj ge' mn True nn, of E] assms
            have "out = (Inl (DatabaseError ''23502''), db)" by simp
            with rj ge' mn True nn show ?thesis by (intro that(7)[of input existing "next"]) simp_all
          next
            case nn: False
            from getEvent_Some[OF ge'] obtain u where u: "uuid_in eid = Some u" by blast
            from patch_event_ok[OF rj ge' mn True nn u, of E] assms
            have "out = (Inr (200, Event (serializeEvent (next\<lparr>updated_at := db_now E\<rparr>))),
              map (\<lambda>r. if matches sid u r
                        then (foldl assign r (build_patch input next))\<lparr>updated_at := db_now E\<rparr>
                        else r) db)" by simp
            with rj ge' mn True nn u show ?thesis by (intro that(8)[of input existing "next" u]) simp_all
          qed
        qed
      qed
    qed
  qed
qed

lemma route_shape:
  "route P E db req = (Inr (200, Sessions (listSessions db)), db)
   \<or> route P E db req = (Inr (404, Failure ''Not Found''), db)
   \<or> (\<exists>sid. route P E db req = post_events P E db sid (body req))
   \<or> (\<exists>sid. route P E db req = get_events P db sid (range_start req) (range_end req))
   \<or> (\<exists>sid eid. route P E db req = get_event db sid eid)
   \<or> (\<exists>sid eid. route P E db req = patch_event P E db sid eid (body req))
   \<or> (\<exists>sid eid. route P E db req = delete_event db sid eid)"
  unfolding route_def Let_def by (simp only: split: if_splits) blast

lemma range_bound_Inl:
  "range_bound P param f = Inl err \<Longrightarrow>
     err = INVALID_ARGUMENT (''Invalid '' @ f @ ''; expected ISO 8601 string.'')"
  by (auto simp: range_bound_def split: option.splits if_splits sum.splits dest: toDate_Inl)

lemma get_events_cases [consumes 1, case_names bad_date listed]:
  assumes "get_events P db sid rs re = out"
  obtains f where "f = ''range_start'' \<or> f = ''range_end''"
      "out = (Inl (INVALID_ARGUMENT (''Invalid '' @ f @ ''; expected ISO 8601 string.'')), db)"
  | evs where "out = (Inr (200, Events evs), db)"
proof (cases "range_bound P rs ''range_start''")
  case (Inl err)
  from range_bound_Inl[OF this] this assms
  have "out = (Inl (INVALID_ARGUMENT (''Invalid '' @ ''range_start'' @ ''; expected ISO 8601 string.'')), db)"
    by (simp add: get_events_def attempt_def)
  then show ?thesis by (intro that(1)[of "''range_start''"]) simp_all
next
  case a: (Inr a)
  show ?thesis
  proof (cases "range_bound P re ''range_end''")
    case (Inl err)
    from range_bound_Inl[OF this] this assms a
    have "out = (Inl (INVALID_ARGUMENT (''Invalid '' @ ''range_end'' @ ''; expected ISO 8601 string.'')), db)"
      by (simp add: get_events_def attempt_def)
    then show ?thesis by (intro that(1)[of "''range_end''"]) simp_all
  next
    case (Inr b)
    with a assms show ?thesis
      by (intro that(2)[of "map serializeEvent (listEvents db sid a b)"])
         (simp add: get_events_def attempt_def)
  qed
qed

lemma get_event_cases [consumes 1, case_names bad_id not_found found]:
  assumes "get_event db sid eid = out"
  obtains "out = (Inl (DatabaseError ''22P02''), db)"
  | "out = (Inr (404, Failure ''Event not found''), db)"
  | e where "out = (Inr (200, Event (serializeEvent e)), db)"
proof (cases "getEvent db sid eid")
  case (Inl err)
  from getEvent_Inl[OF this] this assms show ?thesis
    by (intro that(1)) (simp add: get_event_def attempt_def)
next
  case (Inr found)
  with assms show ?thesis
    by (cases found) (auto simp: get_event_def attempt_def intro: that(2) that(3))
qed

lemma delete_event_cases [consumes 1, case_names bad_id deleted]:
  assumes "delete_event db sid eid = out"
  obtains "out = (Inl (DatabaseError ''22P02''), db)"
  | u where "uuid_in eid = Some u"
      "out = (Inr (200, Success (list_ex (matches sid u) db)), filter (\<lambda>r. \<not> matches sid u r) db)"
proof (cases "uuid_in eid")
  case None
  with assms show ?thesis
    by (intro that(1)) (simp add: delete_event_def attempt_def deleteEvent_def)
next
  case (Some u)
  have "(0 < length (filter (matches sid u) db)) = list_ex (matches sid u) db"
    by (induction db) auto
  with Some assms show ?thesis
    by (intro that(2)[of u]) (simp_all add: delete_event_def attempt_def deleteEvent_def)
qed

subsection \<open>The invariant of the table\<close>

lemma well_formed_created:
  assumes "well_formed db" "createEvent db e = Inr db'" "start e < end' e"
  shows "well_formed db'"
  using assms by (auto simp: createEvent_Inr well_formed_def)

lemma well_formed_deleted: "well_formed db \<Longrightarrow> well_formed (filter p db)"
  by (auto simp: well_formed_def distinct_map_filter list_all_iff)

lemma well_formed_updated:
  assumes "well_formed db" "existing \<in> set db" "matches sid u existing"
    and "foldl assign existing patch = next" "start next < end' next"
  shows "well_formed (map (\<lambda>r. if matches sid u r then (foldl assign r patch)\<lparr>updated_at := NOW\<rparr> else r) db)"
proof -
  from assms(1) have d: "distinct (map id' db)" and o: "\<forall>r\<in>set db. start r < end' r"
    by (simp_all add: well_formed_def list_all_iff)
  have ids: "map id' (map (\<lambda>r. if matches sid u r then (foldl assign r patch)\<lparr>updated_at := NOW\<rparr> else r) db)
        = map id' db"
    by (simp add: id_foldl_assign)
  let ?f = "\<lambda>r. if matches sid u r then (foldl assign r patch)\<lparr>updated_at := NOW\<rparr> else r"
  have "\<forall>r\<in>set db. start (?f r) < end' (?f r)"
  proof
    fix r assume r: "r \<in> set db"
    show "start (if matches sid u r then (foldl assign r patch)\<lparr>updated_at := NOW\<rparr> else r)
           < end' (if matches sid u r then (foldl assign r patch)\<lparr>updated_at := NOW\<rparr> else r)"
    proof (cases "matches sid u r")
      case True
      with matches_unique[OF d assms(2,3) r] have "r = existing" by simp
      with True assms(4,5) show ?thesis by simp
    next
      case False
      with o r show ?thesis by simp
    qed
  qed
  then have "list_all (\<lambda>r. start r < end' r) (map ?f db)"
    unfolding list_all_iff set_map by blast
  with d show ?thesis
    unfolding well_formed_def ids by simp
qed

lemma well_formed_post: "well_formed db \<Longrightarrow> well_formed (snd (post_events P E db sid bd))"
proof -
  assume wf: "well_formed db"
  obtain out where o: "post_events P E db sid bd = out" by simp
  from o wf show ?thesis
  proof (cases rule: post_events_cases)
    case (created input s e db')
    from well_formed_created[OF wf created(6)] created(5,7) o show ?thesis
      by (simp add: new_event_def Let_def)
  qed (simp_all add: o)
qed

lemma well_formed_patch: "well_formed db \<Longrightarrow> well_formed (snd (patch_event P E db sid eid bd))"
proof -
  assume wf: "well_formed db"
  obtain out where o: "patch_event P E db sid eid bd = out" by simp
  from o wf show ?thesis
  proof (cases rule: patch_event_cases)
    case (updated input existing "next" u)
    from getEvent_Some[OF updated(2)] updated(6)
    have ex: "existing \<in> set db" "matches sid u existing" by auto
    from well_formed_updated[OF wf ex foldl_assign_merged[OF updated(3)] updated(4)]
      updated(7) o show ?thesis by simp
  qed (simp_all add: o)
qed

lemma well_formed_route: "well_formed db \<Longrightarrow> well_formed (snd (route P E db req))"
proof -
  assume wf: "well_formed db"
  have ge: "\<And>sid rs re. snd (get_events P db sid rs re) = db"
  proof -
    fix sid rs re
    obtain out where o: "get_events P db sid rs re = out" by simp
    from o show "snd (get_events P db sid rs re) = db"
      by (cases rule: get_events_cases) (simp_all add: o)
  qed
  have g1: "\<And>sid eid. snd (get_event db sid eid) = db"
  proof -
    fix sid eid
    obtain out where o: "get_event db sid eid = out" by simp
    from o show "snd (get_event db sid eid) = db"
      by (cases rule: get_event_cases) (simp_all add: o)
  qed
  have de: "\<And>sid eid. well_formed (snd (delete_event db sid eid))"
  proof -
    fix sid eid
    obtain out where o: "delete_event db sid eid = out" by simp
    from o wf show "well_formed (snd (delete_event db sid eid))"
      by (cases rule: delete_event_cases) (simp_all add: o well_formed_deleted)
  qed
  from route_shape[of P E db req] show ?thesis
    using wf ge g1 de well_formed_post[OF wf] well_formed_patch[OF wf]
    by (elim disjE exE) simp_all
qed

lemma handle_route:
  "handle P E db req =
     (if http_method req = ''GET'' \<and> pathname req = ''/health''
      then ((200, Health), db)
      else (case fst (route P E db req) of
              Inl err \<Rightarrow> (status_of err, Failure (message_of err))
            | Inr res \<Rightarrow> res, snd (route P E db req)))"
  by (cases "route P E db req") (auto simp: handle_def split: sum.splits)

lemma well_formed_handle: "well_formed db \<Longrightarrow> well_formed (snd (handle P E db req))"
  by (simp add: handle_route well_formed_route)

section \<open>Partition isolation\<close>




section \<open>The range filter of the list operation\<close>

lemma listEvents_filter:
  "listEvents db s rs re = sort_key start (filter (overlaps s rs re) db)"
  by (cases rs; cases re) (simp_all add: listEvents_def overlaps_def [abs_def])

text \<open>
  Claim C3. The list operation returns exactly the rows of the table that pass the
  overlap filter (as many times as the table has them): a row is returned iff it is a
  row of the session whose end is at or after the lower bound, when one is given, and
  whose start is at or before the upper bound, when one is given; with no bound it
  returns every row of the session. The result is ordered by start, ascending. For
  events A (09:00 to 10:00) and B (11:00 to 12:00) of one session on a day that begins
  at instant \<open>d\<close>, the query from 09:30 to 09:45 returns exactly A and the query from
  10:30 to 10:45 returns nothing.
\<close>

theorem listEvents_overlap:
  "mset (listEvents db s rs re) = filter_mset (overlaps s rs re) (mset db)
   \<and> (r \<in> set (listEvents db s rs re) \<longleftrightarrow>
        r \<in> set db \<and> session_id r = s
        \<and> (\<forall>a. rs = Some a \<longrightarrow> end' r \<ge> a) \<and> (\<forall>b. re = Some b \<longrightarrow> start r \<le> b))
   \<and> (r \<in> set (listEvents db s None None) \<longleftrightarrow> r \<in> set db \<and> session_id r = s)
   \<and> sorted (map start (listEvents db s rs re))
   \<and> (session_id A = s \<and> start A = d + 32400000 \<and> end' A = d + 36000000
        \<and> session_id B = s \<and> start B = d + 39600000 \<and> end' B = d + 43200000 \<longrightarrow>
        listEvents [A, B] s (Some (d + 34200000)) (Some (d + 35100000)) = [A]
        \<and> listEvents [A, B] s (Some (d + 37800000)) (Some (d + 38700000)) = [])"
proof (intro conjI)
  show "mset (listEvents db s rs re) = filter_mset (overlaps s rs re) (mset db)"
    by (simp add: listEvents_filter)
  show "r \<in> set (listEvents db s rs re) \<longleftrightarrow>
        r \<in> set db \<and> session_id r = s
        \<and> (\<forall>a. rs = Some a \<longrightarrow> end' r \<ge> a) \<and> (\<forall>b. re = Some b \<longrightarrow> start r \<le> b)"
    by (auto simp: listEvents_filter overlaps_def split: option.splits)
  show "r \<in> set (listEvents db s None None) \<longleftrightarrow> r \<in> set db \<and> session_id r = s"
    by (simp add: listEvents_def)
  show "sorted (map start (listEvents db s rs re))"
    by (simp add: listEvents_filter)
  show "session_id A = s \<and> start A = d + 32400000 \<and> end' A = d + 36000000
        \<and> session_id B = s \<and> start B = d + 39600000 \<and> end' B = d + 43200000 \<longrightarrow>
        listEvents [A, B] s (Some (d + 34200000)) (Some (d + 35100000)) = [A]
        \<and> listEvents [A, B] s (Some (d + 37800000)) (Some (d + 38700000)) = []"
    by (simp add: listEvents_def)
qed

text \<open>
  The two queries of the specification on the stored events \<open>eventA\<close> and \<open>eventB\<close>
  (the day 2025-01-10 begins at 1736467200000), with \<open>eventC\<close> of another session in
  the table as well.
\<close>

theorem listEvents_overlap_witness:
  "listEvents [eventA, eventB] ''S'' (Some 1736501400000) (Some 1736502300000) = [eventA]
   \<and> listEvents [eventA, eventB] ''S'' (Some 1736505000000) (Some 1736505900000) = []
   \<and> eventC \<notin> set (listEvents [eventB, eventC, eventA] ''S'' None None)
   \<and> eventB \<in> set (listEvents [eventB, eventC, eventA] ''S'' None (Some 1736510400000))"
proof -
  have A: "session_id eventA = ''S''" "start eventA = 1736467200000 + 32400000"
    "end' eventA = 1736467200000 + 36000000"
    by (simp_all add: eventA_def)
  have B: "session_id eventB = ''S''" "start eventB = 1736467200000 + 39600000"
    "end' eventB = 1736467200000 + 43200000"
    by (simp_all add: eventB_def)
  have C: "session_id eventC \<noteq> ''S''" by (simp add: eventC_def)
  have m: "eventB \<in> set [eventB, eventC, eventA]" by simp
  from listEvents_overlap [of "[eventB, eventC, eventA]" "''S''" None None eventC
      eventA 1736467200000 eventB] A B C
  have 1: "listEvents [eventA, eventB] ''S'' (Some 1736501400000) (Some 1736502300000) = [eventA]"
    and 2: "listEvents [eventA, eventB] ''S'' (Some 1736505000000) (Some 1736505900000) = []"
    and 3: "eventC \<notin> set (listEvents [eventB, eventC, eventA] ''S'' None None)"
    by simp_all
  from listEvents_overlap [of "[eventB, eventC, eventA]" "''S''" None "Some 1736510400000" eventB] m B
  have 4: "eventB \<in> set (listEvents [eventB, eventC, eventA] ''S'' None (Some 1736510400000))"
    by simp
  from 1 2 3 4 show ?thesis by simp
qed

section \<open>Facts about the sample data\<close>

lemma sample_uuid_A:
  "uuid_in ''00000000-0000-4000-8000-00000000000a'' = Some ''00000000-0000-4000-8000-00000000000a''"
  by code_simp

lemma sample_get_A:
  "getEvent [eventA, eventC] ''S'' ''00000000-0000-4000-8000-00000000000a'' = Inr (Some eventA)"
  by (simp add: getEvent_def sample_uuid_A first_row_def matches_def eventA_def eventC_def)

lemmas sample_bodies = create_body_def reversed_body_def no_end_body_def retitle_body_def
  early_end_body_def null_start_body_def hostile_body_def quoted_def


lemma sample_read_early_end:
  "readJson sample_platform early_end_body = Inr (JObj [(''end'', JStr ''2025-01-10T09:00:00Z'')])"
  by (simp add: readJson_def sample_platform_def sample_json_def sample_bodies)

lemmas merge_defs = merge_next_def merge_title_def merge_description_def merge_location_def
  merge_attendees_def merge_start_def merge_end_def merge_status_def


lemma sample_merge_early_end:
  "merge_next sample_platform eventA (JObj [(''end'', JStr ''2025-01-10T09:00:00Z'')])
     = Inr (eventA\<lparr>end' := 1736499600000\<rparr>)"
  by (simp add: merge_defs eventA_def toDate_def sample_platform_def sample_dates_def)

section \<open>The partial update\<close>





section \<open>The order of start and end\<close>

lemma post_events_bad_order:
  assumes "readJson P bd = Inr input" "\<not> required_missing input"
    and "toDate_prop P (get_prop input ''start'') ''start'' = Inr s"
    and "toDate_prop P (get_prop input ''end'') ''end'' = Inr e" "e \<le> s"
  shows "post_events P E db sid bd = (Inl (INVALID_ARGUMENT '''end' must be after 'start'.''), db)"
  using assms by (simp add: post_events_json attempt_def validateEventTimes_def)

lemma well_formed_run: "well_formed db \<Longrightarrow> well_formed (run P db steps)"
  by (induction steps arbitrary: db) (auto simp: well_formed_handle)

text \<open>
  Claim C2. A create whose body passes the check of required fields and whose start and
  end convert to instants with \<open>end \<le> start\<close>, and a patch of an existing event whose
  merged pair has \<open>end \<le> start\<close>, both throw \<open>INVALID_ARGUMENT\<close>, are answered 400 and
  leave the table as it was: no row is added and no field of any row, the update time
  included, is changed. Consequently every request keeps the invariant of the table
  (requests being handled one after the other), so that \<open>end > start\<close> holds in every
  row after any request, and in every row of the table any sequence of requests builds
  from the empty table.
\<close>

theorem end_after_start_enforced:
  "(readJson P bd = Inr input \<and> \<not> required_missing input
      \<and> toDate_prop P (get_prop input ''start'') ''start'' = Inr s
      \<and> toDate_prop P (get_prop input ''end'') ''end'' = Inr e \<and> e \<le> s \<longrightarrow>
        route P E db (post_request sid bd)
          = (Inl (INVALID_ARGUMENT '''end' must be after 'start'.''), db)
        \<and> handle P E db (post_request sid bd)
          = ((400, Failure '''end' must be after 'start'.''), db))
   \<and> (readJson P bd = Inr input \<and> getEvent db sid eid = Inr (Some existing)
      \<and> merge_next P existing input = Inr merged \<and> end' merged \<le> start merged \<longrightarrow>
        route P E db (patch_request sid eid bd)
          = (Inl (INVALID_ARGUMENT '''end' must be after 'start'.''), db)
        \<and> handle P E db (patch_request sid eid bd)
          = ((400, Failure '''end' must be after 'start'.''), db))
   \<and> (well_formed db \<longrightarrow>
        well_formed (snd (handle P E db req))
        \<and> (\<forall>r \<in> set (snd (handle P E db req)). start r < end' r))
   \<and> (\<forall>r \<in> set (run P [] steps). start r < end' r)"
proof (intro conjI impI)
  assume a: "readJson P bd = Inr input \<and> \<not> required_missing input
      \<and> toDate_prop P (get_prop input ''start'') ''start'' = Inr s
      \<and> toDate_prop P (get_prop input ''end'') ''end'' = Inr e \<and> e \<le> s"
  then have "post_events P E db sid bd = (Inl (INVALID_ARGUMENT '''end' must be after 'start'.''), db)"
    by (intro post_events_bad_order[of P bd input s e]) simp_all
  then show "route P E db (post_request sid bd)
          = (Inl (INVALID_ARGUMENT '''end' must be after 'start'.''), db)"
    and "handle P E db (post_request sid bd)
          = ((400, Failure '''end' must be after 'start'.''), db)"
    by (simp_all add: handle_def route_post)
next
  assume a: "readJson P bd = Inr input \<and> getEvent db sid eid = Inr (Some existing)
      \<and> merge_next P existing input = Inr merged \<and> end' merged \<le> start merged"
  then have "patch_event P E db sid eid bd = (Inl (INVALID_ARGUMENT '''end' must be after 'start'.''), db)"
    by (intro patch_event_bad_times[of P bd input db sid eid existing merged]) simp_all
  then show "route P E db (patch_request sid eid bd)
          = (Inl (INVALID_ARGUMENT '''end' must be after 'start'.''), db)"
    and "handle P E db (patch_request sid eid bd)
          = ((400, Failure '''end' must be after 'start'.''), db)"
    by (simp_all add: handle_def route_patch)
next
  assume wf: "well_formed db"
  from well_formed_handle[OF wf] show "well_formed (snd (handle P E db req))" .
  then show "\<forall>r \<in> set (snd (handle P E db req)). start r < end' r"
    by (simp add: well_formed_def list_all_iff)
next
  have "well_formed []" by (simp add: well_formed_def)
  from well_formed_run[OF this] show "\<forall>r \<in> set (run P [] steps). start r < end' r"
    by (simp add: well_formed_def list_all_iff)
qed

text \<open>
  A create with start 09:30 and end 09:00, and a patch of \<open>eventA\<close> (start 09:00) to
  end 09:00, are refused; a valid create and a run of a create followed by such a patch
  leave only rows with \<open>end > start\<close>.
\<close>

lemma sample_read_reversed:
  "readJson sample_platform reversed_body
     = Inr (JObj [(''title'', JStr ''Call''), (''start'', JStr ''2025-01-10T09:30:00Z''),
                  (''end'', JStr ''2025-01-10T09:00:00Z'')])"
  by (simp add: readJson_def sample_platform_def sample_json_def sample_bodies)

lemma sample_read_create:
  "readJson sample_platform create_body
     = Inr (JObj [(''title'', JStr ''Call''), (''start'', JStr ''2025-01-10T09:00:00Z''),
                  (''end'', JStr ''2025-01-10T09:30:00Z'')])"
  by (simp add: readJson_def sample_platform_def sample_json_def sample_bodies)

lemma sample_well_formed: "well_formed [eventA, eventC]"
  by (simp add: well_formed_def eventA_def eventC_def)

theorem end_after_start_enforced_witness:
  "handle sample_platform sample_env [eventA, eventC] (post_request ''S'' reversed_body)
     = ((400, Failure '''end' must be after 'start'.''), [eventA, eventC])
   \<and> handle sample_platform sample_env [eventA, eventC]
        (patch_request ''S'' ''00000000-0000-4000-8000-00000000000a'' early_end_body)
     = ((400, Failure '''end' must be after 'start'.''), [eventA, eventC])
   \<and> list_all (\<lambda>r. start r < end' r)
        (snd (handle sample_platform sample_env [eventA, eventC] (post_request ''S'' create_body)))
   \<and> list_all (\<lambda>r. start r < end' r)
        (run sample_platform []
          [(sample_env, post_request ''S'' create_body),
           (later_env, patch_request ''S'' ''00000000-0000-4000-8000-000000000000'' early_end_body)])"
proof -
  let ?rev = "JObj [(''title'', JStr ''Call''), (''start'', JStr ''2025-01-10T09:30:00Z''),
                  (''end'', JStr ''2025-01-10T09:00:00Z'')]"
  have 1: "\<not> required_missing ?rev"
    "toDate_prop sample_platform (get_prop ?rev ''start'') ''start'' = Inr 1736501400000"
    "toDate_prop sample_platform (get_prop ?rev ''end'') ''end'' = Inr 1736499600000"
    by (simp_all add: required_missing_def falsy_def toDate_prop_def toDate_def
          sample_platform_def sample_dates_def)
  have 2: "end' (eventA\<lparr>end' := 1736499600000\<rparr>) \<le> start (eventA\<lparr>end' := 1736499600000\<rparr>)"
    by (simp add: eventA_def)
  note t = end_after_start_enforced [where P = sample_platform and bd = reversed_body
      and input = ?rev and s = 1736501400000 and e = 1736499600000 and E = sample_env
      and db = "[eventA, eventC]" and sid = "''S''" and req = "post_request ''S'' create_body"]
  from t sample_read_reversed 1
  have a: "handle sample_platform sample_env [eventA, eventC] (post_request ''S'' reversed_body)
     = ((400, Failure '''end' must be after 'start'.''), [eventA, eventC])"
    by simp
  from t sample_well_formed
  have c: "list_all (\<lambda>r. start r < end' r)
        (snd (handle sample_platform sample_env [eventA, eventC] (post_request ''S'' create_body)))"
    by (simp add: list_all_iff)
  from end_after_start_enforced [where P = sample_platform and bd = early_end_body
      and input = "JObj [(''end'', JStr ''2025-01-10T09:00:00Z'')]" and E = sample_env
      and db = "[eventA, eventC]" and sid = "''S''"
      and eid = "''00000000-0000-4000-8000-00000000000a''" and existing = eventA
      and merged = "eventA\<lparr>end' := 1736499600000\<rparr>"
      and steps = "[(sample_env, post_request ''S'' create_body),
           (later_env, patch_request ''S'' ''00000000-0000-4000-8000-000000000000'' early_end_body)]"]
    sample_read_early_end sample_get_A sample_merge_early_end 2
  have b: "handle sample_platform sample_env [eventA, eventC]
        (patch_request ''S'' ''00000000-0000-4000-8000-00000000000a'' early_end_body)
     = ((400, Failure '''end' must be after 'start'.''), [eventA, eventC])"
    and d: "list_all (\<lambda>r. start r < end' r)
        (run sample_platform []
          [(sample_env, post_request ''S'' create_body),
           (later_env, patch_request ''S'' ''00000000-0000-4000-8000-000000000000'' early_end_body)])"
    by (simp_all add: list_all_iff)
  from a b c d show ?thesis by simp
qed

section \<open>The column names of the dynamic UPDATE\<close>

lemma keys_if: "map fst (if c then [(k, v)] else []) = (if c then [k] else [])"
  by simp

lemma build_patch_keys:
  "map fst (build_patch input next) =
     (if get_prop input ''title'' \<noteq> None then [''title''] else []) @
     (if get_prop input ''description'' \<noteq> None then [''description''] else []) @
     (if get_prop input ''location'' \<noteq> None then [''location''] else []) @
     (if get_prop input ''attendees'' \<noteq> None then [''attendees''] else []) @
     (if get_prop input ''start'' \<noteq> None then [''start''] else []) @
     (if get_prop input ''end'' \<noteq> None then [''end''] else []) @
     (if get_prop input ''status'' \<noteq> None then [''status''] else [])"
  unfolding build_patch_def map_append keys_if ..

lemma set_if: "set (if c then [k] else []) \<subseteq> A \<longleftrightarrow> (c \<longrightarrow> k \<in> A)"
  by auto

lemma build_patch_keys_columns: "set (map fst (build_patch input next)) \<subseteq> set columns"
  unfolding build_patch_keys set_append Un_subset_iff set_if
  by (simp add: columns_def)

lemma set_fields_keys:
  "map fst p = map fst q \<Longrightarrow> set_fields idx p = set_fields idx q"
proof (induction p arbitrary: q idx)
  case Nil
  then show ?case by simp
next
  case (Cons kv p)
  then obtain kv' q' where q: "q = kv' # q'" by (cases q) auto
  with Cons.prems have "fst kv = fst kv'" "map fst p = map fst q'" by simp_all
  with Cons.IH[of q' "Suc idx"] q show ?case
    by (cases kv; cases kv') simp
qed

lemma update_sql_keys: "map fst p = map fst q \<Longrightarrow> update_sql p = update_sql q"
proof -
  assume k: "map fst p = map fst q"
  then have "length p = length q" by (metis length_map)
  with set_fields_keys[OF k] show ?thesis by (simp add: update_sql_def)
qed

lemma set_fields_shape:
  "f \<in> set (set_fields idx p) \<Longrightarrow> \<exists>k n. k \<in> set (map fst p) \<and> f = k @ '' = $'' @ digits n"
proof (induction p arbitrary: idx)
  case Nil
  then show ?case by simp
next
  case (Cons kv p)
  obtain k v where kv: "kv = (k, v)" by (cases kv)
  from Cons.prems kv have "f = k @ '' = $'' @ digits idx \<or> f \<in> set (set_fields (Suc idx) p)"
    by simp
  then show ?case
  proof
    assume "f = k @ '' = $'' @ digits idx"
    with kv show ?thesis by auto
  next
    assume "f \<in> set (set_fields (Suc idx) p)"
    from Cons.IH[OF this] show ?thesis by auto
  qed
qed

text \<open>
  Claim C5. The patch that the PATCH route hands to the update operation is
  \<open>build_patch input next\<close>. Whatever the body, its keys are among the seven column
  names the server writes itself; each \<^verbatim>\<open>SET\<close> clause of the statement text is one of
  these names followed by a parameter placeholder; and the statement text is the same
  for two bodies that agree on which of the seven keys are present, whatever other keys
  and whatever values they hold: no key of the body is copied into the statement.
\<close>

theorem patch_columns_allow_listed:
  "set (map fst (build_patch input next)) \<subseteq> set columns
   \<and> (\<forall>f \<in> set (set_fields 1 (build_patch input next)).
         \<exists>k n. k \<in> set columns \<and> f = k @ '' = $'' @ digits n)
   \<and> update_sql (build_patch input next)
       = ''UPDATE events SET ''
         @ join '', '' (set_fields 1 (build_patch input next) @ [''updated_at = NOW()''])
         @ '' WHERE session_id = $'' @ digits (length (build_patch input next) + 1)
         @ '' AND id = $'' @ digits (length (build_patch input next) + 2) @ '' RETURNING *''
   \<and> ((\<forall>k \<in> set columns. (get_prop input k = None) = (get_prop input2 k = None)) \<longrightarrow>
         update_sql (build_patch input next) = update_sql (build_patch input2 next2))"
proof (intro conjI ballI impI)
  show "set (map fst (build_patch input next)) \<subseteq> set columns"
    by (rule build_patch_keys_columns)
  show "update_sql (build_patch input next)
       = ''UPDATE events SET ''
         @ join '', '' (set_fields 1 (build_patch input next) @ [''updated_at = NOW()''])
         @ '' WHERE session_id = $'' @ digits (length (build_patch input next) + 1)
         @ '' AND id = $'' @ digits (length (build_patch input next) + 2) @ '' RETURNING *''"
    by (simp add: update_sql_def)
next
  fix f assume "f \<in> set (set_fields 1 (build_patch input next))"
  from set_fields_shape[OF this] build_patch_keys_columns[of input "next"]
  show "\<exists>k n. k \<in> set columns \<and> f = k @ '' = $'' @ digits n" by blast
next
  assume "\<forall>k \<in> set columns. (get_prop input k = None) = (get_prop input2 k = None)"
  then have "map fst (build_patch input next) = map fst (build_patch input2 next2)"
    unfolding build_patch_keys by (simp add: columns_def)
  then show "update_sql (build_patch input next) = update_sql (build_patch input2 next2)"
    by (rule update_sql_keys)
qed

text \<open>
  A body with a key that is a fragment of SQL, next to a status: the statement names
  the status column alone.
\<close>

theorem patch_columns_allow_listed_witness:
  "update_sql (build_patch
       (JObj [(''title = title; DROP TABLE events; --'', JNum 1), (''status'', JStr ''cancelled'')])
       (eventA\<lparr>status := JStr ''cancelled''\<rparr>))
     = ''UPDATE events SET status = $1, updated_at = NOW() WHERE session_id = $2 AND id = $3 RETURNING *''
   \<and> map fst (build_patch
       (JObj [(''title = title; DROP TABLE events; --'', JNum 1), (''status'', JStr ''cancelled'')])
       (eventA\<lparr>status := JStr ''cancelled''\<rparr>)) = [''status'']"
proof -
  let ?hostile = "JObj [(''title = title; DROP TABLE events; --'', JNum 1), (''status'', JStr ''cancelled'')]"
  have p: "build_patch (JObj [(''status'', JStr ''x'')]) eventB = [(''status'', Val (status eventB))]"
    by (simp add: build_patch_def)
  have s: "update_sql [(''status'', Val (status eventB))]
     = ''UPDATE events SET status = $1, updated_at = NOW() WHERE session_id = $2 AND id = $3 RETURNING *''"
    by (simp add: update_sql_def digits.simps hexdigit_def)
  have k: "\<forall>k \<in> set columns. (get_prop ?hostile k = None) = (get_prop (JObj [(''status'', JStr ''x'')]) k = None)"
    by (simp add: columns_def)
  from patch_columns_allow_listed [of ?hostile "eventA\<lparr>status := JStr ''cancelled''\<rparr>"
      "JObj [(''status'', JStr ''x'')]" eventB] k
  have "update_sql (build_patch ?hostile (eventA\<lparr>status := JStr ''cancelled''\<rparr>))
     = update_sql (build_patch (JObj [(''status'', JStr ''x'')]) eventB)"
    by blast
  then have 1: "update_sql (build_patch ?hostile (eventA\<lparr>status := JStr ''cancelled''\<rparr>))
     = ''UPDATE events SET status = $1, updated_at = NOW() WHERE session_id = $2 AND id = $3 RETURNING *''"
    by (simp only: p s)
  have 2: "map fst (build_patch ?hostile (eventA\<lparr>status := JStr ''cancelled''\<rparr>)) = [''status'']"
    by (simp add: build_patch_def)
  from 1 2 show ?thesis by simp
qed

section \<open>The required fields of a create\<close>

lemma not_falsy: "\<not> falsy v \<longleftrightarrow> (\<exists>j. v = Some j \<and> truthy j)"
  by (cases v) (simp_all add: falsy_def)

lemma handle_post_201:
  assumes "handle P E db (post_request sid bd) = ((201, rep), db')"
  obtains input s e where "readJson P bd = Inr input" "\<not> required_missing input"
      "toDate_prop P (get_prop input ''start'') ''start'' = Inr s"
      "toDate_prop P (get_prop input ''end'') ''end'' = Inr e" "s < e"
      "createEvent db (new_event E sid input s e) = Inr db'"
      "rep = Event (serializeEvent (new_event E sid input s e))"
proof -
  obtain out where o: "post_events P E db sid bd = out" by simp
  with assms have h: "(case fst out of Inl err \<Rightarrow> (status_of err, Failure (message_of err))
      | Inr res \<Rightarrow> res, snd out) = ((201, rep), db')"
    by (simp add: handle_route route_post)
  from o show ?thesis
  proof (cases rule: post_events_cases)
    case (created input s e db'')
    with h that show ?thesis by simp
  qed (use h in simp_all)
qed

text \<open>
  Claim C6. When the body has been read and title, start or end is absent, null or
  the empty string, the create is answered 400 with the message on missing required
  fields, and the table is unchanged; this holds on every platform with the same
  \<^verbatim>\<open>JSON.parse\<close> and for every table and clock, so no timestamp has been parsed and the
  storage has not been reached. A create is answered 201 only when the body has been
  read and all three are present and truthy, start and end convert to instants, and
  \<open>end > start\<close>.
\<close>

theorem create_requires_fields:
  "(readJson P bd = Inr input \<and> k \<in> {''title'', ''start'', ''end''}
      \<and> (get_prop input k = None \<or> get_prop input k = Some (JStr [])
           \<or> get_prop input k = Some JNull) \<longrightarrow>
      (\<forall>P' E' db'. JSON_parse P' = JSON_parse P \<longrightarrow>
         handle P' E' db' (post_request sid bd)
           = ((400, Failure ''Missing required fields: title, start, end''), db')))
   \<and> (handle P E db (post_request sid bd) = ((201, rep), db2) \<longrightarrow>
        (\<exists>input t s e ds de.
           readJson P bd = Inr input
           \<and> get_prop input ''title'' = Some t \<and> truthy t
           \<and> get_prop input ''start'' = Some s \<and> truthy s
           \<and> get_prop input ''end'' = Some e \<and> truthy e
           \<and> toDate P s ''start'' = Inr ds \<and> toDate P e ''end'' = Inr de \<and> ds < de))"
proof (intro conjI impI allI)
  fix P' :: platform and E' :: env and db' :: events
  assume a: "readJson P bd = Inr input \<and> k \<in> {''title'', ''start'', ''end''}
      \<and> (get_prop input k = None \<or> get_prop input k = Some (JStr [])
           \<or> get_prop input k = Some JNull)"
    and p: "JSON_parse P' = JSON_parse P"
  from a have "falsy (get_prop input k)" by (auto simp: falsy_def)
  with a have m: "required_missing input" by (auto simp: required_missing_def)
  from p have "readJson P' bd = readJson P bd" by (simp add: readJson_def)
  with a have "readJson P' bd = Inr input" by simp
  with m show "handle P' E' db' (post_request sid bd)
           = ((400, Failure ''Missing required fields: title, start, end''), db')"
    by (simp add: handle_def route_post post_events_json)
next
  assume "handle P E db (post_request sid bd) = ((201, rep), db2)"
  then obtain input ds de where rj: "readJson P bd = Inr input"
    and nm: "\<not> required_missing input"
    and s: "toDate_prop P (get_prop input ''start'') ''start'' = Inr ds"
    and e: "toDate_prop P (get_prop input ''end'') ''end'' = Inr de" and o: "ds < de"
    by (rule handle_post_201)
  from nm obtain t sv ev where
    t: "get_prop input ''title'' = Some t" "truthy t"
    and sv: "get_prop input ''start'' = Some sv" "truthy sv"
    and ev: "get_prop input ''end'' = Some ev" "truthy ev"
    unfolding required_missing_def de_Morgan_disj not_falsy by blast
  from s sv(1) have "toDate P sv ''start'' = Inr ds" by (simp add: toDate_prop_def)
  moreover from e ev(1) have "toDate P ev ''end'' = Inr de" by (simp add: toDate_prop_def)
  ultimately show "\<exists>input t s e ds de.
           readJson P bd = Inr input
           \<and> get_prop input ''title'' = Some t \<and> truthy t
           \<and> get_prop input ''start'' = Some s \<and> truthy s
           \<and> get_prop input ''end'' = Some e \<and> truthy e
           \<and> toDate P s ''start'' = Inr ds \<and> toDate P e ''end'' = Inr de \<and> ds < de"
    using rj t sv ev o by blast
qed

text \<open>
  A body with a title and a start and no end is answered 400, on two tables and on two
  platforms that differ in \<^verbatim>\<open>Date.parse\<close>.
\<close>

lemma sample_read_no_end:
  "readJson sample_platform no_end_body
     = Inr (JObj [(''title'', JStr ''Call''), (''start'', JStr ''2025-01-10T09:00:00Z'')])"
  by (simp add: readJson_def sample_platform_def sample_json_def sample_bodies)

theorem create_requires_fields_witness:
  "handle sample_platform sample_env [eventA, eventC] (post_request ''S'' no_end_body)
     = ((400, Failure ''Missing required fields: title, start, end''), [eventA, eventC])
   \<and> handle (sample_platform\<lparr>Date_parse := (\<lambda>s. None)\<rparr>) later_env [] (post_request ''T'' no_end_body)
     = ((400, Failure ''Missing required fields: title, start, end''), [])"
proof -
  have k: "''end'' \<in> {''title'', ''start'', ''end''}" by simp
  have g: "get_prop (JObj [(''title'', JStr ''Call''), (''start'', JStr ''2025-01-10T09:00:00Z'')]) ''end'' = None"
    by simp
  have p: "JSON_parse (sample_platform\<lparr>Date_parse := (\<lambda>s. None)\<rparr>) = JSON_parse sample_platform"
    by simp
  from create_requires_fields [of sample_platform no_end_body
      "JObj [(''title'', JStr ''Call''), (''start'', JStr ''2025-01-10T09:00:00Z'')]" "''end''"]
    sample_read_no_end k g
  have *: "\<And>P' E' db' sid. JSON_parse P' = JSON_parse sample_platform \<Longrightarrow>
         handle P' E' db' (post_request sid no_end_body)
           = ((400, Failure ''Missing required fields: title, start, end''), db')"
    by blast
  from *[of sample_platform sample_env "[eventA, eventC]" "''S''"]
       *[OF p, of later_env "[]" "''T''"]
  show ?thesis by simp
qed

section \<open>The id and the timestamps of a created event\<close>

lemma sample_zero_uuid: "randomUUID (\<lambda>i. 0) = ''00000000-0000-4000-8000-000000000000''"
  by code_simp

lemma sample_call_event:
  "entropy E = (\<lambda>i. 0) \<Longrightarrow>
   new_event E ''S'' (JObj [(''title'', JStr ''Call''), (''start'', JStr ''2025-01-10T09:00:00Z''),
                  (''end'', JStr ''2025-01-10T09:30:00Z'')]) 1736499600000 1736501400000
     = call_row (server_now E)"
  by (simp add: new_event_def Let_def call_row_def sample_zero_uuid value_of_def nullish_def
      array_or_empty_def)

lemma sample_post_call:
  assumes "entropy E = (\<lambda>i. 0)" "''00000000-0000-4000-8000-000000000000'' \<notin> set (map id' db)"
  shows "handle sample_platform E db (post_request ''S'' create_body)
     = ((201, Event (serializeEvent (call_row (server_now E)))), db @ [call_row (server_now E)])"
proof -
  let ?input = "JObj [(''title'', JStr ''Call''), (''start'', JStr ''2025-01-10T09:00:00Z''),
                  (''end'', JStr ''2025-01-10T09:30:00Z'')]"
  have 1: "\<not> required_missing ?input"
    "toDate_prop sample_platform (get_prop ?input ''start'') ''start'' = Inr 1736499600000"
    "toDate_prop sample_platform (get_prop ?input ''end'') ''end'' = Inr 1736501400000"
    by (simp_all add: required_missing_def falsy_def toDate_prop_def toDate_def
          sample_platform_def sample_dates_def)
  have u: "uuid_in (id' (call_row (server_now E))) = Some ''00000000-0000-4000-8000-000000000000''"
    using uuid_in_randomUUID[of "\<lambda>i. 0"] by (simp add: sample_zero_uuid call_row_def)
  have c: "createEvent db (call_row (server_now E)) = Inr (db @ [call_row (server_now E)])"
    using assms(2) u by (simp add: createEvent_def) (simp add: call_row_def)
  show ?thesis
    using 1 c
    by (simp add: handle_def route_post post_events_json[OF sample_read_create] attempt_def
        validateEventTimes_def sample_call_event[OF assms(1)])
qed




section \<open>The update time\<close>

lemma matches_set_row:
  "matches sid u ((foldl assign r patch)\<lparr>updated_at := t\<rparr>) = matches sid u r"
  by (simp add: matches_def session_id_foldl_assign id_foldl_assign)

lemma filter_matches_updated:
  "filter (matches sid u) (map (\<lambda>r. if matches sid u r then (foldl assign r patch)\<lparr>updated_at := t\<rparr> else r) db)
     = map (\<lambda>r. (foldl assign r patch)\<lparr>updated_at := t\<rparr>) (filter (matches sid u) db)"
  by (induction db) (simp_all add: matches_set_row)

lemma updateEvent_Some:
  assumes "updateEvent NOW db sid eid patch = Inr (Some r', db')"
  obtains u r where "uuid_in eid = Some u" "first_row (filter (matches sid u) db) = Some r"
    "r' = (foldl assign r patch)\<lparr>updated_at := NOW\<rparr>"
    "db' = map (\<lambda>r. if matches sid u r then (foldl assign r patch)\<lparr>updated_at := NOW\<rparr> else r) db"
proof -
  from assms obtain u where u: "uuid_in eid = Some u"
    and r': "first_row (map (\<lambda>r. (foldl assign r patch)\<lparr>updated_at := NOW\<rparr>)
                          (filter (matches sid u) db)) = Some r'"
    and db': "db' = map (\<lambda>r. if matches sid u r
                        then (foldl assign r patch)\<lparr>updated_at := NOW\<rparr> else r) db"
    by (auto simp: updateEvent_def Let_def split: option.splits if_splits)
  from r' obtain r where "first_row (filter (matches sid u) db) = Some r"
    "r' = (foldl assign r patch)\<lparr>updated_at := NOW\<rparr>"
    by (auto simp: first_row_map)
  with u db' that show ?thesis by blast
qed

lemma handle_patch_200:
  assumes "handle P E db (patch_request sid eid bd) = ((200, rep), db')"
  obtains input existing merged u where "readJson P bd = Inr input"
      "getEvent db sid eid = Inr (Some existing)"
      "merge_next P existing input = Inr merged" "start merged < end' merged"
      "uuid_in eid = Some u"
      "rep = Event (serializeEvent (merged\<lparr>updated_at := db_now E\<rparr>))"
      "db' = map (\<lambda>r. if matches sid u r
                        then (foldl assign r (build_patch input merged))\<lparr>updated_at := db_now E\<rparr>
                        else r) db"
proof -
  obtain out where o: "patch_event P E db sid eid bd = out" by simp
  with assms have h: "(case fst out of Inl err \<Rightarrow> (status_of err, Failure (message_of err))
      | Inr res \<Rightarrow> res, snd out) = ((200, rep), db')"
    by (simp add: handle_route route_patch)
  from o show ?thesis
  proof (cases rule: patch_event_cases)
    case (updated input existing "next" u)
    with h that show ?thesis by simp
  qed (use h in simp_all)
qed

text \<open>
  Claim C8, as the code has it. A successful update stores the current time of the
  database as the update time of the row, whatever the patch holds, the empty patch
  included, and returns the row so stored. The new value is therefore greater than the
  value stored before exactly when the clock of the database, read at the update, is
  later than that value.
\<close>

theorem update_refreshes_updated_at:
  "(updateEvent NOW db sid eid patch = Inr (Some r', db') \<longrightarrow>
      updated_at r' = NOW
      \<and> getEvent db' sid eid = Inr (Some r')
      \<and> (\<exists>r. getEvent db sid eid = Inr (Some r)
             \<and> (updated_at r < updated_at r' \<longleftrightarrow> updated_at r < NOW)))
   \<and> (handle P E db (patch_request sid eid bd) = ((200, rep), db') \<longrightarrow>
      (\<exists>v r r'. rep = Event v \<and> updatedAt v = db_now E
         \<and> getEvent db sid eid = Inr (Some r) \<and> getEvent db' sid eid = Inr (Some r')
         \<and> updated_at r' = db_now E
         \<and> (updated_at r < updated_at r' \<longleftrightarrow> updated_at r < db_now E)))"
proof (intro conjI impI)
  assume a: "updateEvent NOW db sid eid patch = Inr (Some r', db')"
  then obtain u r where u: "uuid_in eid = Some u"
    and r: "first_row (filter (matches sid u) db) = Some r"
    and r': "r' = (foldl assign r patch)\<lparr>updated_at := NOW\<rparr>"
    and db': "db' = map (\<lambda>r. if matches sid u r then (foldl assign r patch)\<lparr>updated_at := NOW\<rparr> else r) db"
    by (rule updateEvent_Some)
  from r' show "updated_at r' = NOW" by simp
  from u r r' show "getEvent db' sid eid = Inr (Some r')"
    unfolding db' by (simp add: getEvent_def filter_matches_updated first_row_map)
  from u r r' show "\<exists>r. getEvent db sid eid = Inr (Some r)
             \<and> (updated_at r < updated_at r' \<longleftrightarrow> updated_at r < NOW)"
    by (simp add: getEvent_def)
next
  assume "handle P E db (patch_request sid eid bd) = ((200, rep), db')"
  then obtain input existing merged u where
    g: "getEvent db sid eid = Inr (Some existing)"
    and m: "merge_next P existing input = Inr merged"
    and u: "uuid_in eid = Some u"
    and rep: "rep = Event (serializeEvent (merged\<lparr>updated_at := db_now E\<rparr>))"
    and db': "db' = map (\<lambda>r. if matches sid u r
                        then (foldl assign r (build_patch input merged))\<lparr>updated_at := db_now E\<rparr>
                        else r) db"
    by (rule handle_patch_200)
  from g u have fr: "first_row (filter (matches sid u) db) = Some existing"
    by (simp add: getEvent_def)
  have "getEvent db' sid eid = Inr (Some (merged\<lparr>updated_at := db_now E\<rparr>))"
    unfolding db' using u fr
    by (simp add: getEvent_def filter_matches_updated first_row_map foldl_assign_merged[OF m])
  with rep g show "\<exists>v r r'. rep = Event v \<and> updatedAt v = db_now E
         \<and> getEvent db sid eid = Inr (Some r) \<and> getEvent db' sid eid = Inr (Some r')
         \<and> updated_at r' = db_now E
         \<and> (updated_at r < updated_at r' \<longleftrightarrow> updated_at r < db_now E)"
    by (intro exI[of _ "serializeEvent (merged\<lparr>updated_at := db_now E\<rparr>)"] exI[of _ existing]
          exI[of _ "merged\<lparr>updated_at := db_now E\<rparr>"])
       (simp add: serializeEvent_def)
qed

lemma sample_uuid_zero:
  "uuid_in ''00000000-0000-4000-8000-000000000000'' = Some ''00000000-0000-4000-8000-000000000000''"
  using uuid_in_randomUUID[of "\<lambda>i. 0"] by (simp add: sample_zero_uuid)

lemma sample_patch_empty_call:
  "handle sample_platform E [call_row t] (patch_request ''S'' ''00000000-0000-4000-8000-000000000000'' [])
     = ((200, Event (serializeEvent ((call_row t)\<lparr>updated_at := db_now E\<rparr>))),
        [(call_row t)\<lparr>updated_at := db_now E\<rparr>])"
proof -
  have g: "getEvent [call_row t] ''S'' ''00000000-0000-4000-8000-000000000000'' = Inr (Some (call_row t))"
    by (simp add: getEvent_def sample_uuid_zero first_row_def matches_def call_row_def)
  have r: "readJson sample_platform [] = Inr (JObj [])" by (simp add: readJson_def)
  have m: "merge_next sample_platform (call_row t) (JObj []) = Inr (call_row t)"
    by (simp add: merge_defs)
  have o: "start (call_row t) < end' (call_row t)" by (simp add: call_row_def)
  have n: "\<not> list_ex null_in_not_null (build_patch (JObj []) (call_row t))"
    by (simp add: build_patch_def)
  have d: "distinct (map id' [call_row t])" by simp
  from patch_event_ok_distinct[OF r g m o n d, of E] show ?thesis
    by (simp add: handle_def route_patch)
qed

text \<open>An update of \<open>eventA\<close> when the clock of the database has moved on.\<close>

theorem update_refreshes_updated_at_witness:
  "updateEvent 1736600000002 [eventA, eventC] ''S'' ''00000000-0000-4000-8000-00000000000a'' []
     = Inr (Some (eventA\<lparr>updated_at := 1736600000002\<rparr>),
            [eventA\<lparr>updated_at := 1736600000002\<rparr>, eventC])
   \<and> getEvent [eventA\<lparr>updated_at := 1736600000002\<rparr>, eventC] ''S''
        ''00000000-0000-4000-8000-00000000000a'' = Inr (Some (eventA\<lparr>updated_at := 1736600000002\<rparr>))
   \<and> updated_at eventA < updated_at (eventA\<lparr>updated_at := 1736600000002\<rparr>)"
proof -
  have m: "matches ''S'' ''00000000-0000-4000-8000-00000000000a'' eventA"
    "\<not> matches ''S'' ''00000000-0000-4000-8000-00000000000a'' eventC"
    by (simp_all add: matches_def eventA_def eventC_def)
  have h: "updateEvent 1736600000002 [eventA, eventC] ''S'' ''00000000-0000-4000-8000-00000000000a'' []
     = Inr (Some (eventA\<lparr>updated_at := 1736600000002\<rparr>),
            [eventA\<lparr>updated_at := 1736600000002\<rparr>, eventC])"
    by (simp add: updateEvent_def Let_def sample_uuid_A m first_row_def)
  have lt: "updated_at eventA < 1736600000002" by (simp add: eventA_def)
  from update_refreshes_updated_at [of 1736600000002 "[eventA, eventC]" "''S''"
      "''00000000-0000-4000-8000-00000000000a''" "[]" "eventA\<lparr>updated_at := 1736600000002\<rparr>"
      "[eventA\<lparr>updated_at := 1736600000002\<rparr>, eventC]"] h sample_get_A lt
  have "getEvent [eventA\<lparr>updated_at := 1736600000002\<rparr>, eventC] ''S''
        ''00000000-0000-4000-8000-00000000000a'' = Inr (Some (eventA\<lparr>updated_at := 1736600000002\<rparr>))
   \<and> updated_at eventA < updated_at (eventA\<lparr>updated_at := 1736600000002\<rparr>)"
    by auto
  with h show ?thesis by blast
qed

text \<open>
  The claim as the spec words it, a strict increase at every successful update, fails
  when the clock of the database is behind the clock that wrote the stored value: an
  event created by a server whose clock is one millisecond ahead, then updated, ends
  with an update time before the one it had.
\<close>

theorem update_refreshes_updated_at_counterexample:
  "handle sample_platform skewed_env [] (post_request ''S'' create_body)
     = ((201, Event (serializeEvent (call_row 1736600000000))), [call_row 1736600000000])
   \<and> handle sample_platform skewed_env [call_row 1736600000000]
        (patch_request ''S'' ''00000000-0000-4000-8000-000000000000'' [])
     = ((200, Event (serializeEvent ((call_row 1736600000000)\<lparr>updated_at := 1736599999999\<rparr>))),
        [(call_row 1736600000000)\<lparr>updated_at := 1736599999999\<rparr>])
   \<and> updated_at ((call_row 1736600000000)\<lparr>updated_at := 1736599999999\<rparr>)
       < updated_at (call_row 1736600000000)"
proof -
  have 1: "handle sample_platform skewed_env [] (post_request ''S'' create_body)
     = ((201, Event (serializeEvent (call_row 1736600000000))), [call_row 1736600000000])"
    using sample_post_call[of skewed_env "[]"] by (simp add: skewed_env_def)
  have 2: "handle sample_platform skewed_env [call_row 1736600000000]
        (patch_request ''S'' ''00000000-0000-4000-8000-000000000000'' [])
     = ((200, Event (serializeEvent ((call_row 1736600000000)\<lparr>updated_at := 1736599999999\<rparr>))),
        [(call_row 1736600000000)\<lparr>updated_at := 1736599999999\<rparr>])"
    using sample_patch_empty_call[of skewed_env 1736600000000] by (simp add: skewed_env_def)
  have 3: "updated_at ((call_row 1736600000000)\<lparr>updated_at := 1736599999999\<rparr>)
       < updated_at (call_row 1736600000000)"
    by (simp add: call_row_def)
  from 1 2 3 show ?thesis by simp
qed

section \<open>The empty body\<close>

lemma invalid_messages [simp]:
  "''Invalid '' @ f @ ''; expected ISO 8601 string.'' = ''Invalid JSON body'' \<longleftrightarrow> False"
proof
  assume "''Invalid '' @ f @ ''; expected ISO 8601 string.'' = ''Invalid JSON body''"
  then have "length (''Invalid '' @ f @ ''; expected ISO 8601 string.'') = length ''Invalid JSON body''"
    by (rule arg_cong)
  then show False by simp
qed simp

lemma patch_event_empty_body:
  assumes "getEvent db sid eid = Inr (Some existing)" "start existing < end' existing"
    and "uuid_in eid = Some u"
  shows "patch_event P E db sid eid [] =
     (Inr (200, Event (serializeEvent (existing\<lparr>updated_at := db_now E\<rparr>))),
      map (\<lambda>r. if matches sid u r then r\<lparr>updated_at := db_now E\<rparr> else r) db)"
proof -
  have r: "readJson P [] = Inr (JObj [])" by (simp add: readJson_def)
  have m: "merge_next P existing (JObj []) = Inr existing" by (simp add: merge_defs)
  have b: "build_patch (JObj []) existing = []" by (simp add: build_patch_def)
  from patch_event_ok[OF r assms(1) m assms(2) _ assms(3), of E] show ?thesis
    by (simp add: b)
qed

lemma route_invalid_json:
  assumes "route P E db req = out"
    and "(case fst out of Inl err \<Rightarrow> (status_of err, Failure (message_of err)) | Inr res \<Rightarrow> res)
           = (400, Failure ''Invalid JSON body'')"
  shows "body req \<noteq> [] \<and> JSON_parse P (body req) = None \<and> snd out = db"
proof -
  note h = assms(2)
  from route_shape[of P E db req] show ?thesis
  proof (elim disjE exE)
    assume "route P E db req = (Inr (200, Sessions (listSessions db)), db)"
    with assms show ?thesis by auto
  next
    assume "route P E db req = (Inr (404, Failure ''Not Found''), db)"
    with assms show ?thesis by auto
  next
    fix sid assume "route P E db req = post_events P E db sid (body req)"
    with assms(1) have "post_events P E db sid (body req) = out" by simp
    then show ?thesis
      by (cases rule: post_events_cases) (use h in auto)
  next
    fix sid assume "route P E db req = get_events P db sid (range_start req) (range_end req)"
    with assms(1) have "get_events P db sid (range_start req) (range_end req) = out" by simp
    then show ?thesis
      by (cases rule: get_events_cases) (use h in auto)
  next
    fix sid eid assume "route P E db req = get_event db sid eid"
    with assms(1) have "get_event db sid eid = out" by simp
    then show ?thesis
      by (cases rule: get_event_cases) (use h in auto)
  next
    fix sid eid assume "route P E db req = patch_event P E db sid eid (body req)"
    with assms(1) have "patch_event P E db sid eid (body req) = out" by simp
    then show ?thesis
      by (cases rule: patch_event_cases) (use h in auto)
  next
    fix sid eid assume "route P E db req = delete_event db sid eid"
    with assms(1) have "delete_event db sid eid = out" by simp
    then show ?thesis
      by (cases rule: delete_event_cases) (use h in auto)
  qed
qed

text \<open>
  Claim C9. The body reader turns the empty body into the empty object and fails, with
  \<open>INVALID_JSON\<close>, exactly on a non-empty body that \<^verbatim>\<open>JSON.parse\<close> refuses. So a create
  with an empty body is answered 400 for its missing fields, and a patch with an empty
  body of an existing event (whose stored end is after its start) is answered 200 with
  the row as it was but for its update time, which is the only field of the table that
  changes. No request is answered 400 with the message \<open>Invalid JSON body\<close> unless its
  body is non-empty and refused by \<^verbatim>\<open>JSON.parse\<close>, and then the table is unchanged.
\<close>

theorem empty_body_is_empty_object:
  "readJson P [] = Inr (JObj [])
   \<and> (readJson P bd = Inl INVALID_JSON \<longleftrightarrow> bd \<noteq> [] \<and> JSON_parse P bd = None)
   \<and> handle P E db (post_request sid [])
       = ((400, Failure ''Missing required fields: title, start, end''), db)
   \<and> (getEvent db sid eid = Inr (Some existing) \<and> start existing < end' existing \<longrightarrow>
        (\<exists>u. uuid_in eid = Some u
           \<and> handle P E db (patch_request sid eid [])
               = ((200, Event (serializeEvent (existing\<lparr>updated_at := db_now E\<rparr>))),
                  map (\<lambda>r. if matches sid u r then r\<lparr>updated_at := db_now E\<rparr> else r) db)))
   \<and> (handle P E db req = ((400, Failure ''Invalid JSON body''), db') \<longrightarrow>
        body req \<noteq> [] \<and> JSON_parse P (body req) = None \<and> db' = db)"
proof (intro conjI impI)
  show "readJson P [] = Inr (JObj [])" by (simp add: readJson_def)
  show "readJson P bd = Inl INVALID_JSON \<longleftrightarrow> bd \<noteq> [] \<and> JSON_parse P bd = None"
    by (simp add: readJson_Inl)
  have "required_missing (JObj [])" by (simp add: required_missing_def falsy_def)
  then show "handle P E db (post_request sid [])
       = ((400, Failure ''Missing required fields: title, start, end''), db)"
    by (simp add: handle_def route_post post_events_json[of P "[]" "JObj []"] readJson_def)
next
  assume a: "getEvent db sid eid = Inr (Some existing) \<and> start existing < end' existing"
  then obtain u where u: "uuid_in eid = Some u" by (auto dest: getEvent_Some)
  from a patch_event_empty_body[OF _ _ u, of db sid existing P E]
  have "handle P E db (patch_request sid eid [])
               = ((200, Event (serializeEvent (existing\<lparr>updated_at := db_now E\<rparr>))),
                  map (\<lambda>r. if matches sid u r then r\<lparr>updated_at := db_now E\<rparr> else r) db)"
    by (simp add: handle_def route_patch)
  with u show "\<exists>u. uuid_in eid = Some u
           \<and> handle P E db (patch_request sid eid [])
               = ((200, Event (serializeEvent (existing\<lparr>updated_at := db_now E\<rparr>))),
                  map (\<lambda>r. if matches sid u r then r\<lparr>updated_at := db_now E\<rparr> else r) db)"
    by blast
next
  assume "handle P E db req = ((400, Failure ''Invalid JSON body''), db')"
  then have 1: "(case fst (route P E db req) of
             Inl err \<Rightarrow> (status_of err, Failure (message_of err)) | Inr res \<Rightarrow> res)
           = (400, Failure ''Invalid JSON body'')"
    and 2: "snd (route P E db req) = db'"
    by (simp_all add: handle_route split: if_splits)
  from route_invalid_json[OF refl 1] 2
  show "body req \<noteq> []" "JSON_parse P (body req) = None" "db' = db" by simp_all
qed

text \<open>
  On the table of \<open>eventA\<close> and \<open>eventC\<close>: a patch of \<open>eventA\<close> with an empty body
  refreshes its update time alone; a patch whose body is a lone brace is answered 400.
\<close>

theorem empty_body_is_empty_object_witness:
  "handle sample_platform sample_env [eventA, eventC]
       (patch_request ''S'' ''00000000-0000-4000-8000-00000000000a'' [])
     = ((200, Event (serializeEvent (eventA\<lparr>updated_at := 1736600000002\<rparr>))),
        [eventA\<lparr>updated_at := 1736600000002\<rparr>, eventC])
   \<and> handle sample_platform sample_env [eventA, eventC]
       (patch_request ''S'' ''00000000-0000-4000-8000-00000000000a'' ''{'')
     = ((400, Failure ''Invalid JSON body''), [eventA, eventC])
   \<and> JSON_parse sample_platform ''{'' = None"
proof -
  have o: "start eventA < end' eventA" by (simp add: eventA_def)
  have m: "matches ''S'' ''00000000-0000-4000-8000-00000000000a'' eventA"
    "\<not> matches ''S'' ''00000000-0000-4000-8000-00000000000a'' eventC"
    by (simp_all add: matches_def eventA_def eventC_def)
  have p: "JSON_parse sample_platform ''{'' = None"
    by (simp add: sample_platform_def sample_json_def sample_bodies)
  then have b: "handle sample_platform sample_env [eventA, eventC]
       (patch_request ''S'' ''00000000-0000-4000-8000-00000000000a'' ''{'')
     = ((400, Failure ''Invalid JSON body''), [eventA, eventC])"
    by (simp add: handle_def route_patch patch_event_def attempt_def readJson_def)
  from empty_body_is_empty_object [of sample_platform _ sample_env "[eventA, eventC]" "''S''"
      "''00000000-0000-4000-8000-00000000000a''" eventA
      "patch_request ''S'' ''00000000-0000-4000-8000-00000000000a'' ''{''" "[eventA, eventC]"]
    sample_get_A o sample_uuid_A m b
  have "handle sample_platform sample_env [eventA, eventC]
       (patch_request ''S'' ''00000000-0000-4000-8000-00000000000a'' [])
     = ((200, Event (serializeEvent (eventA\<lparr>updated_at := 1736600000002\<rparr>))),
        [eventA\<lparr>updated_at := 1736600000002\<rparr>, eventC])
     \<and> JSON_parse sample_platform ''{'' = None"
    by (auto simp: sample_env_def patch_request_def)
  with b show ?thesis by blast
qed

section \<open>A null timestamp in a patch\<close>







end
